theory Spec2Isabelle
  imports Complex_Main
begin

chapter \<open>Schema reconciliation, merge engine and cost-component evaluator\<close>

text \<open>
  A shallow embedding of \<^verbatim>\<open>core_schema.py\<close>, \<^verbatim>\<open>cost_components.py\<close> and
  \<^verbatim>\<open>data_engine.py\<close>. The first part holds the model, one definition per source
  function; the second part holds the properties.
\<close>

section \<open>Python strings\<close>

text \<open>
  A Python \<^verbatim>\<open>str\<close> is a sequence of Unicode code points, so a string is a list of
  natural numbers; \<open>ascii\<close> turns an ASCII literal into such a list. The Turkish letters
  of the source are written by code point: U+0130 = 304, U+0131 = 305, U+015E = 350, U+015F = 351,
  U+011E = 286, U+011F = 287, U+00D6 = 214, U+00F6 = 246, U+00DC = 220, U+00FC = 252,
  U+00C7 = 199, U+00E7 = 231.
\<close>

type_synonym ustring = "nat list"

definition ascii :: "string \<Rightarrow> ustring" where
  "ascii s = map of_char s"

text \<open>
  The tables of the Unicode character database that the Python runtime consults are data of
  the interpreter, not of the repository. They are a parameter \<open>U\<close> of every function that
  reaches them, and they are asked about code points from 128 upwards only: on ASCII the
  model computes for itself.
  \<^item> \<open>compat_decomp\<close>: the full compatibility decomposition of a code point
    (\<^verbatim>\<open>unicodedata.normalize("NFKD", .)\<close>);
  \<^item> \<open>fold_tab\<close>, \<open>upper_tab\<close>, \<open>lower_tab\<close>: full case folding, upper-casing and
    lower-casing of one code point (\<^verbatim>\<open>str.casefold\<close>, \<^verbatim>\<open>str.upper\<close>, \<^verbatim>\<open>str.lower\<close>);
  \<^item> \<open>alnum_tab\<close>: \<^verbatim>\<open>str.isalnum\<close> of one code point;
  \<^item> \<open>digit_tab\<close>: the value of a decimal digit (category Nd), which \<^verbatim>\<open>float\<close> accepts.
\<close>

record unicode_db =
  compat_decomp :: "nat \<Rightarrow> nat list"
  fold_tab :: "nat \<Rightarrow> nat list"
  upper_tab :: "nat \<Rightarrow> nat list"
  lower_tab :: "nat \<Rightarrow> nat list"
  alnum_tab :: "nat \<Rightarrow> bool"
  digit_tab :: "nat \<Rightarrow> nat option"

text \<open>
  An excerpt of the database for running the model on examples: e-acute decomposes into
  \<open>e\<close> and the combining acute accent, the no-break space into a space, sharp s folds and
  upper-cases to two letters, the Latin-1 letters are alphanumeric, the full-width digits
  U+FF10 .. U+FF19 are decimal digits. Code points outside the excerpt are left without
  decomposition, case mapping, or class.
\<close>

definition unicode_excerpt :: unicode_db where
  "unicode_excerpt =
     \<lparr>compat_decomp = (\<lambda>c. if c = 233 then [101, 769] else if c = 160 then [32] else [c]),
      fold_tab = (\<lambda>c. if c = 223 then [115, 115] else if 192 \<le> c \<and> c \<le> 222 \<and> c \<noteq> 215 then [c + 32] else [c]),
      upper_tab = (\<lambda>c. if c = 223 then [83, 83] else if c = 255 then [376]
                        else if 224 \<le> c \<and> c \<le> 254 \<and> c \<noteq> 247 then [c - 32] else [c]),
      lower_tab = (\<lambda>c. if 192 \<le> c \<and> c \<le> 222 \<and> c \<noteq> 215 then [c + 32] else [c]),
      alnum_tab = (\<lambda>c. 192 \<le> c \<and> c \<le> 255 \<and> c \<noteq> 215 \<and> c \<noteq> 247),
      digit_tab = (\<lambda>c. if 65296 \<le> c \<and> c \<le> 65305 then Some (c - 65296) else None)\<rparr>"

text \<open>
  \<^verbatim>\<open>str.strip()\<close> removes leading and trailing whitespace; \<open>isspace\<close> lists the code
  points that CPython counts as whitespace (U+0009..U+000D, U+001C..U+0020, U+0085, U+00A0,
  U+1680, U+2000..U+200A, U+2028, U+2029, U+202F, U+205F, U+3000). The regular expression
  class \<^verbatim>\<open>\s\<close> on a \<^verbatim>\<open>str\<close> pattern is the same set.
\<close>

definition isspace :: "nat \<Rightarrow> bool" where
  "isspace c \<longleftrightarrow>
     (9 \<le> c \<and> c \<le> 13) \<or> (28 \<le> c \<and> c \<le> 32) \<or> c = 133 \<or> c = 160 \<or> c = 5760 \<or>
     (8192 \<le> c \<and> c \<le> 8202) \<or> c = 8232 \<or> c = 8233 \<or> c = 8239 \<or> c = 8287 \<or> c = 12288"

definition strip :: "ustring \<Rightarrow> ustring" where
  "strip s = rev (dropWhile isspace (rev (dropWhile isspace s)))"

text \<open>ASCII letters and digits, and the case mappings of one ASCII code point.\<close>

definition lower1 :: "nat \<Rightarrow> nat" where
  "lower1 c = (if 65 \<le> c \<and> c \<le> 90 then c + 32 else c)"

definition upper1 :: "nat \<Rightarrow> nat" where
  "upper1 c = (if 97 \<le> c \<and> c \<le> 122 then c - 32 else c)"

definition ascii_lower :: "ustring \<Rightarrow> ustring" where
  "ascii_lower s = map lower1 s"

definition az09 :: "nat \<Rightarrow> bool" where
  "az09 c \<longleftrightarrow> (97 \<le> c \<and> c \<le> 122) \<or> (48 \<le> c \<and> c \<le> 57)"

definition ascii_alnum :: "nat \<Rightarrow> bool" where
  "ascii_alnum c \<longleftrightarrow> az09 c \<or> (65 \<le> c \<and> c \<le> 90)"

text \<open>
  \<^verbatim>\<open>str.casefold()\<close>, \<^verbatim>\<open>str.upper()\<close> and \<^verbatim>\<open>str.lower()\<close> map code point by code
  point; a code point outside ASCII may become several. (The one context rule of
  \<^verbatim>\<open>str.lower\<close>, for a final capital sigma, is part of \<open>lower_tab\<close>'s answer and does not
  touch ASCII.)
\<close>

definition casefold :: "unicode_db \<Rightarrow> ustring \<Rightarrow> ustring" where
  "casefold U s = concat (map (\<lambda>c. if c < 128 then [lower1 c] else fold_tab U c) s)"

definition upper :: "unicode_db \<Rightarrow> ustring \<Rightarrow> ustring" where
  "upper U s = concat (map (\<lambda>c. if c < 128 then [upper1 c] else upper_tab U c) s)"

definition lower :: "unicode_db \<Rightarrow> ustring \<Rightarrow> ustring" where
  "lower U s = concat (map (\<lambda>c. if c < 128 then [lower1 c] else lower_tab U c) s)"

text \<open>Python's \<^verbatim>\<open>a in b\<close> on strings: \<open>a\<close> occurs in \<open>b\<close> as a contiguous slice.\<close>

fun is_prefix :: "ustring \<Rightarrow> ustring \<Rightarrow> bool" where
  "is_prefix [] ys = True"
| "is_prefix (x # xs) [] = False"
| "is_prefix (x # xs) (y # ys) = (x = y \<and> is_prefix xs ys)"

fun substring :: "ustring \<Rightarrow> ustring \<Rightarrow> bool" where
  "substring a [] = (a = [])"
| "substring a (y # ys) = (is_prefix a (y # ys) \<or> substring a ys)"

section \<open>core_schema.py\<close>

subsection \<open>normalize\<close>

text \<open>
  \<^verbatim>\<open>_TURKISH_CHAR_MAP = str.maketrans({...})\<close>: dotless i, dotted capital I, s-cedilla,
  g-breve, o-umlaut, u-umlaut and c-cedilla, in both cases, go to \<open>i s g o u c\<close>.
\<close>

definition TURKISH_CHAR_MAP :: "(nat \<times> nat) list" where
  "TURKISH_CHAR_MAP =
     [(305, 105), (304, 105), (351, 115), (350, 115), (287, 103), (286, 103),
      (246, 111), (214, 111), (252, 117), (220, 117), (231, 99), (199, 99)]"

definition translate1 :: "(nat \<times> nat) list \<Rightarrow> nat \<Rightarrow> nat" where
  "translate1 tab c = (case map_of tab c of Some d \<Rightarrow> d | None \<Rightarrow> c)"

definition translate :: "(nat \<times> nat) list \<Rightarrow> ustring \<Rightarrow> ustring" where
  "translate tab s = map (translate1 tab) s"

text \<open>
  \<^verbatim>\<open>unicodedata.normalize("NFKD", s).encode("ascii", "ignore").decode("ascii")\<close>:
  decompose, then keep the ASCII code points. Canonical reordering only moves combining marks,
  none of which is ASCII, so the ASCII code points that survive are, in order, those of the
  decomposition of each code point; an ASCII code point decomposes to itself.
\<close>

definition nfkd_ascii1 :: "unicode_db \<Rightarrow> nat \<Rightarrow> ustring" where
  "nfkd_ascii1 U c = (if c < 128 then [c] else filter (\<lambda>d. d < 128) (compat_decomp U c))"

definition nfkd_ascii :: "unicode_db \<Rightarrow> ustring \<Rightarrow> ustring" where
  "nfkd_ascii U s = concat (map (nfkd_ascii1 U) s)"

text \<open>
  \<^verbatim>\<open>re.sub(r"[^a-z0-9]+", " ", s)\<close> and \<^verbatim>\<open>re.sub(r"\s+", " ", s)\<close>: every maximal run
  of code points in the class \<open>P\<close> becomes one space (code point 32).
\<close>

function re_sub_runs :: "(nat \<Rightarrow> bool) \<Rightarrow> ustring \<Rightarrow> ustring" where
  "re_sub_runs P [] = []"
| "re_sub_runs P (c # cs) =
     (if P c then 32 # re_sub_runs P (dropWhile P cs) else c # re_sub_runs P cs)"
  by pat_completeness auto
termination
  by (relation "measure (\<lambda>(P, s). length s)") (auto simp: le_imp_less_Suc length_dropWhile_le)

text \<open>
  \<^verbatim>\<open>
  def normalize(s: str) -> str:
      if s is None:
          return ""
      s = str(s).strip()
      s = s.translate(_TURKISH_CHAR_MAP)
      s = unicodedata.normalize("NFKD", s)
      s = s.encode("ascii", "ignore").decode("ascii")
      s = s.lower()
      s = re.sub(r"[^a-z0-9]+", " ", s)
      s = re.sub(r"\s+", " ", s).strip()
      return s
  \<close>
  The argument is \<^verbatim>\<open>None\<close> or a string. When \<^verbatim>\<open>lower()\<close> runs the string is ASCII.
  (\<open>normalize\<close> is a constant of HOL, hence the suffix.)
\<close>

definition normalize_text :: "unicode_db \<Rightarrow> ustring option \<Rightarrow> ustring" where
  "normalize_text U x =
     (case x of
        None \<Rightarrow> []
      | Some s0 \<Rightarrow>
          (let s = strip s0;
               s = translate TURKISH_CHAR_MAP s;
               s = nfkd_ascii U s;
               s = ascii_lower s;
               s = re_sub_runs (\<lambda>c. \<not> az09 c) s;
               s = strip (re_sub_runs isspace s)
           in s))"






subsection \<open>The canonical schema\<close>

text \<open>
  A schema is a dictionary from the canonical key to its \<^verbatim>\<open>label\<close> and
  \<^verbatim>\<open>synonyms\<close>; dictionaries keep insertion order, so it is an association list. A
  missing \<^verbatim>\<open>"label"\<close> is \<open>None\<close>, a missing \<^verbatim>\<open>"synonyms"\<close> the empty list
  (\<^verbatim>\<open>meta.get("synonyms", [])\<close>).
\<close>

record field_meta =
  label :: "ustring option"
  synonyms :: "ustring list"

type_synonym schema = "(ustring \<times> field_meta) list"

definition DEFAULT_SCHEMA :: schema where
  "DEFAULT_SCHEMA =
     [(ascii ''is_yeri_kodu'',
        \<lparr>label = Some ([304, 351] @ ascii '' Yeri Kodu''),
         synonyms = [ascii ''is yeri'', ascii ''i'' @ [351] @ ascii '' yeri'', ascii ''plant'',
                     ascii ''site'', ascii ''plant code'', ascii ''i'' @ [351] @ ascii ''yeri'',
                     ascii ''isyeri'']\<rparr>),
      (ascii ''masraf_yeri_kodu'',
        \<lparr>label = Some (ascii ''Masraf Yeri Kodu''),
         synonyms = [ascii ''masraf yeri'', ascii ''cost center'', ascii ''cost centre'',
                     ascii ''cc'', ascii ''masraf kodu'']\<rparr>),
      (ascii ''makine_kodu'',
        \<lparr>label = Some (ascii ''Makine Kodu''),
         synonyms = [ascii ''makina kodu'', ascii ''ekipman kodu'', ascii ''equipment code'',
                     ascii ''asset code'']\<rparr>),
      (ascii ''makine_adi'',
        \<lparr>label = Some (ascii ''Makine Ad'' @ [305]),
         synonyms = [ascii ''makina adi'', ascii ''ekipman ad'' @ [305], ascii ''equipment name'',
                     ascii ''asset name'']\<rparr>),
      (ascii ''malzeme_adi'',
        \<lparr>label = Some (ascii ''Malzeme Ad'' @ [305]),
         synonyms = [ascii ''malzeme adi'', ascii ''stok ad'' @ [305], ascii ''material name'',
                     ascii ''item name'']\<rparr>)]"

subsection \<open>Dictionaries built from headers\<close>

text \<open>
  \<^verbatim>\<open>d[k] = v\<close> on an insertion-ordered dictionary: a key that is present keeps its place
  and takes the new value, a new key goes to the end. The comprehension
  \<^verbatim>\<open>{normalize(h): h for h in headers}\<close> stores the headers from left to right.
\<close>

fun dict_set :: "('k \<times> 'v) list \<Rightarrow> 'k \<Rightarrow> 'v \<Rightarrow> ('k \<times> 'v) list" where
  "dict_set [] k v = [(k, v)]"
| "dict_set ((k', v') # d) k v = (if k' = k then (k', v) # d else (k', v') # dict_set d k v)"

definition norm_headers_map :: "unicode_db \<Rightarrow> ustring list \<Rightarrow> (ustring \<times> ustring) list" where
  "norm_headers_map U headers =
     foldl (\<lambda>d h. dict_set d (normalize_text U (Some h)) h) [] headers"

subsection \<open>Mapper.suggest_mapping\<close>

text \<open>
  \<^verbatim>\<open>
  def suggest_mapping(self, headers):
      norm_headers_map = {normalize(h): h for h in headers}
      mapping = {}
      for canonical, meta in self.schema.items():
          candidates = [canonical] + meta.get("synonyms", [])
          cand_norm = [normalize(x) for x in candidates]
          hit = None
          for c in cand_norm:
              if c in norm_headers_map:
                  hit = norm_headers_map[c]
                  break
          if hit is None:
              for nh in norm_headers_map.keys():
                  m = get_close_matches(nh, cand_norm, n=1, cutoff=0.88)
                  if m:
                      hit = norm_headers_map[nh]
                      break
          mapping[canonical] = hit
      return mapping
  \<close>
  \<^verbatim>\<open>difflib.get_close_matches\<close> belongs to the standard library; it is the parameter
  \<open>close\<close>, which returns the list of matches (empty when there is none).
\<close>

fun exact_hit :: "(ustring \<times> ustring) list \<Rightarrow> ustring list \<Rightarrow> ustring option" where
  "exact_hit d [] = None"
| "exact_hit d (c # cs) = (case map_of d c of Some h \<Rightarrow> Some h | None \<Rightarrow> exact_hit d cs)"

fun fuzzy_hit ::
  "(ustring \<Rightarrow> ustring list \<Rightarrow> ustring list) \<Rightarrow> (ustring \<times> ustring) list \<Rightarrow> ustring list \<Rightarrow> ustring option" where
  "fuzzy_hit close [] cand_norm = None"
| "fuzzy_hit close ((nh, h) # d) cand_norm =
     (if close nh cand_norm \<noteq> [] then Some h else fuzzy_hit close d cand_norm)"

definition suggest_field ::
  "unicode_db \<Rightarrow> (ustring \<Rightarrow> ustring list \<Rightarrow> ustring list) \<Rightarrow> (ustring \<times> ustring) list \<Rightarrow>
     ustring \<Rightarrow> field_meta \<Rightarrow> ustring option" where
  "suggest_field U close d canonical meta =
     (let candidates = canonical # synonyms meta;
          cand_norm = map (\<lambda>x. normalize_text U (Some x)) candidates
      in case exact_hit d cand_norm of
           Some h \<Rightarrow> Some h
         | None \<Rightarrow> fuzzy_hit close d cand_norm)"

definition suggest_mapping ::
  "unicode_db \<Rightarrow> (ustring \<Rightarrow> ustring list \<Rightarrow> ustring list) \<Rightarrow> schema \<Rightarrow> ustring list \<Rightarrow>
     (ustring \<times> ustring option) list" where
  "suggest_mapping U close sch headers =
     (let d = norm_headers_map U headers
      in foldl (\<lambda>mapping (canonical, meta). dict_set mapping canonical (suggest_field U close d canonical meta))
           [] sch)"

text \<open>
  For stating which header a candidate selects: the headers whose normalized form is \<open>k\<close>,
  in the order of the input.
\<close>

definition headers_with_key :: "unicode_db \<Rightarrow> ustring list \<Rightarrow> ustring \<Rightarrow> ustring list" where
  "headers_with_key U headers k = filter (\<lambda>h. normalize_text U (Some h) = k) headers"

section \<open>Tables\<close>

text \<open>
  A \<^verbatim>\<open>pandas.DataFrame\<close> is its list of column names and its list of rows, each row
  holding one cell per column, in the order of the columns. The row index is not modelled:
  every frame the engine keeps was built with \<^verbatim>\<open>ignore_index=True\<close> or
  \<^verbatim>\<open>reset_index(drop=True)\<close>, and masks are applied to the frame they were computed from.

  The cells of the engine's tables are those of an object column: a string or one of the
  three missing values. Columns of a numeric dtype, whose values \<^verbatim>\<open>pandas.concat\<close> may
  re-type (an integer column that receives a missing value becomes a float column), are
  outside the model. \<open>astype_str\<close> is \<^verbatim>\<open>Series.astype(str)\<close> on one cell.
\<close>

datatype cell = Str ustring | NaN | PyNone | PdNA

fun astype_str :: "cell \<Rightarrow> ustring" where
  "astype_str (Str s) = s"
| "astype_str NaN = ascii ''nan''"
| "astype_str PyNone = ascii ''None''"
| "astype_str PdNA = ascii ''<NA>''"

record 'c table =
  columns :: "ustring list"
  rows :: "'c list list"

definition wf_table :: "'c table \<Rightarrow> bool" where
  "wf_table t \<longleftrightarrow> distinct (columns t) \<and> list_all (\<lambda>r. length r = length (columns t)) (rows t)"

text \<open>\<^verbatim>\<open>pd.DataFrame()\<close>, \<^verbatim>\<open>df.empty\<close> (no column or no row) and \<^verbatim>\<open>df is None or df.empty\<close>.\<close>

definition DataFrame :: "'c table" where
  "DataFrame = \<lparr>columns = [], rows = []\<rparr>"

definition empty_df :: "'c table \<Rightarrow> bool" where
  "empty_df t \<longleftrightarrow> columns t = [] \<or> rows t = []"

fun none_or_empty :: "'c table option \<Rightarrow> bool" where
  "none_or_empty None = True"
| "none_or_empty (Some t) = empty_df t"

text \<open>Exceptions that the modelled code can raise.\<close>

datatype error = KeyError | ValueError | TypeError

text \<open>
  \<^verbatim>\<open>df[c]\<close>: the cells of column \<open>c\<close>, one per row; \<^verbatim>\<open>KeyError\<close> when \<open>c\<close> is not a
  column. \<open>index_of\<close> is the position of the first occurrence.
\<close>

fun index_of :: "'a list \<Rightarrow> 'a \<Rightarrow> nat option" where
  "index_of [] x = None"
| "index_of (y # ys) x = (if y = x then Some 0 else map_option Suc (index_of ys x))"

definition getitem :: "'c table \<Rightarrow> ustring \<Rightarrow> error + 'c list" where
  "getitem t c =
     (case index_of (columns t) c of
        None \<Rightarrow> Inl KeyError
      | Some i \<Rightarrow> Inr (map (\<lambda>r. r ! i) (rows t)))"

text \<open>
  \<^verbatim>\<open>pd.concat([a, b], ignore_index=True, join="outer")\<close>: the columns of \<open>a\<close>, then the
  columns of \<open>b\<close> that \<open>a\<close> does not have; the rows of \<open>a\<close>, then the rows of \<open>b\<close>, each
  laid out on the new columns with \<^verbatim>\<open>NaN\<close> where its frame has no such column.
\<close>

definition reindex :: "cell table \<Rightarrow> ustring list \<Rightarrow> cell list \<Rightarrow> cell list" where
  "reindex t cols r =
     map (\<lambda>c. case index_of (columns t) c of None \<Rightarrow> NaN | Some i \<Rightarrow> r ! i) cols"

definition concat_df :: "cell table \<Rightarrow> cell table \<Rightarrow> cell table" where
  "concat_df a b =
     (let cols = columns a @ filter (\<lambda>c. c \<notin> set (columns a)) (columns b)
      in \<lparr>columns = cols,
          rows = map (reindex a cols) (rows a) @ map (reindex b cols) (rows b)\<rparr>)"

text \<open>\<^verbatim>\<open>df.loc[mask]\<close> for a boolean mask with one entry per row.\<close>

definition loc_mask :: "'c table \<Rightarrow> bool list \<Rightarrow> 'c table" where
  "loc_mask t msk = t\<lparr>rows := map fst (filter snd (zip (rows t) msk))\<rparr>"

text \<open>Truth value of \<^verbatim>\<open>Optional[str]\<close>: \<^verbatim>\<open>None\<close> and the empty string are false.\<close>

fun truthy :: "ustring option \<Rightarrow> bool" where
  "truthy None = False"
| "truthy (Some s) = (s \<noteq> [])"

section \<open>cost_components._to_float\<close>

subsection \<open>Python's float\<close>

text \<open>
  A Python float is kept as the exact value of the literal that denotes it, or as one of the
  two infinities or not-a-number. CPython rounds the exact value to the nearest double (to
  an infinity beyond the range of doubles); literals with the same exact value denote the
  same float, and the literal \<^verbatim>\<open>1234.56\<close> of the source text is \<^verbatim>\<open>float("1234.56")\<close>.
\<close>

datatype pyfloat = Fin rat | PosInf | NegInf | NotANumber

text \<open>
  \<^verbatim>\<open>float(s)\<close> for a string, as \<^verbatim>\<open>PyFloat_FromString\<close> does it: a code point from 127
  upwards becomes a space when it is whitespace, its digit when it is a decimal digit, and
  \<open>?\<close> otherwise; ASCII whitespace (tab to carriage return, and the space) is stripped from
  both ends; an underscore must stand between two digits and is dropped; what remains is an
  optional sign followed by \<open>inf\<close>, \<open>infinity\<close> or \<open>nan\<close> in any case, or by a decimal
  number: digits with an optional point, at least one digit in all, and an optional exponent
  \<open>e\<close> or \<open>E\<close> with an optional sign and at least one digit. \<open>None\<close> is \<^verbatim>\<open>ValueError\<close>.
\<close>

definition transform_decimal_and_space :: "unicode_db \<Rightarrow> nat \<Rightarrow> nat" where
  "transform_decimal_and_space U c =
     (if c < 127 then c
      else if isspace c then 32
      else (case digit_tab U c of Some d \<Rightarrow> 48 + d | None \<Rightarrow> 63))"

definition ascii_space :: "nat \<Rightarrow> bool" where
  "ascii_space c \<longleftrightarrow> (9 \<le> c \<and> c \<le> 13) \<or> c = 32"

definition is_digit :: "nat \<Rightarrow> bool" where
  "is_digit c \<longleftrightarrow> 48 \<le> c \<and> c \<le> 57"

fun drop_underscores :: "nat \<Rightarrow> ustring \<Rightarrow> ustring option" where
  "drop_underscores prev [] = (if prev = 95 then None else Some [])"
| "drop_underscores prev (c # cs) =
     (if c = 95 then (if is_digit prev then drop_underscores c cs else None)
      else if prev = 95 \<and> \<not> is_digit c then None
      else map_option ((#) c) (drop_underscores c cs))"

definition digits_value :: "ustring \<Rightarrow> nat" where
  "digits_value ds = foldl (\<lambda>a d. 10 * a + (d - 48)) 0 ds"

definition split_sign :: "ustring \<Rightarrow> bool \<times> ustring" where
  "split_sign s =
     (case s of
        [] \<Rightarrow> (False, [])
      | c # t \<Rightarrow> if c = 45 then (True, t) else if c = 43 then (False, t) else (False, s))"

definition scale10 :: "rat \<Rightarrow> bool \<Rightarrow> nat \<Rightarrow> rat" where
  "scale10 q neg e = (if neg then q / 10 ^ e else q * 10 ^ e)"

definition parse_decimal :: "ustring \<Rightarrow> rat option" where
  "parse_decimal s =
     (let ip = takeWhile is_digit s;
          r1 = dropWhile is_digit s;
          fp = (case r1 of [] \<Rightarrow> [] | c # t \<Rightarrow> if c = 46 then takeWhile is_digit t else []);
          r2 = (case r1 of [] \<Rightarrow> [] | c # t \<Rightarrow> if c = 46 then dropWhile is_digit t else r1);
          m = of_nat (digits_value (ip @ fp)) / 10 ^ length fp
      in if ip = [] \<and> fp = [] then None
         else (case r2 of
                 [] \<Rightarrow> Some m
               | c # t \<Rightarrow>
                  (if c = 101 \<or> c = 69
                   then (let sd = split_sign t
                         in if snd sd \<noteq> [] \<and> list_all is_digit (snd sd)
                            then Some (scale10 m (fst sd) (digits_value (snd sd)))
                            else None)
                   else None)))"

definition float_of_string :: "unicode_db \<Rightarrow> ustring \<Rightarrow> pyfloat option" where
  "float_of_string U s =
     (let t = map (transform_decimal_and_space U) s;
          t = rev (dropWhile ascii_space (rev (dropWhile ascii_space t)))
      in case drop_underscores 0 t of
           None \<Rightarrow> None
         | Some u \<Rightarrow>
            (let sb = split_sign u; word = ascii_lower (snd sb)
             in if word = ascii ''inf'' \<or> word = ascii ''infinity''
                then Some (if fst sb then NegInf else PosInf)
                else if word = ascii ''nan'' then Some NotANumber
                else map_option (\<lambda>q. Fin (if fst sb then - q else q)) (parse_decimal (snd sb))))"

text \<open>
  \<^verbatim>\<open>float(x)\<close> for a cell: a string is parsed, the float not-a-number is itself,
  \<^verbatim>\<open>None\<close> and \<^verbatim>\<open>pd.NA\<close> raise \<^verbatim>\<open>TypeError\<close>.
\<close>

fun float_of_cell :: "unicode_db \<Rightarrow> cell \<Rightarrow> pyfloat option" where
  "float_of_cell U (Str s) = float_of_string U s"
| "float_of_cell U NaN = Some NotANumber"
| "float_of_cell U PyNone = None"
| "float_of_cell U PdNA = None"

subsection \<open>_to_float\<close>

text \<open>
  \<^verbatim>\<open>
  def _to_float(x) -> float:
      """TR/EN sayi dayanikli donusturucu (virgul/nokta)."""
      try:
          s = str(x).strip()
          if s == "" or s.lower() in ("nan", "<na>", "none"):
              return 0.0
          if "," in s and "." in s and s.rfind(",") > s.rfind("."):
              s = s.replace(" ", "").replace(".", "").replace(",", ".")
          else:
              s = s.replace(",", ".")
          return float(s)
      except Exception:
          try:
              return float(x)
          except Exception:
              return 0.0
  \<close>
  (The docstring, in Turkish, reads: number converter robust to TR and EN, comma and point.)
  The argument is a cell of a table; \<^verbatim>\<open>str\<close> of it is \<open>astype_str\<close>. \<open>rfind\<close> is the
  last position of a code point, \<open>-1\<close> when there is none; \<^verbatim>\<open>replace\<close> is used with
  single characters only.
\<close>

fun rfind_from :: "nat \<Rightarrow> ustring \<Rightarrow> nat \<Rightarrow> int" where
  "rfind_from i [] c = - 1"
| "rfind_from i (x # xs) c =
     (let r = rfind_from (Suc i) xs c in if 0 \<le> r then r else if x = c then int i else - 1)"

definition rfind :: "ustring \<Rightarrow> nat \<Rightarrow> int" where
  "rfind s c = rfind_from 0 s c"

definition replace_char :: "nat \<Rightarrow> ustring \<Rightarrow> ustring \<Rightarrow> ustring" where
  "replace_char c new s = concat (map (\<lambda>x. if x = c then new else [x]) s)"

definition to_float :: "unicode_db \<Rightarrow> cell \<Rightarrow> pyfloat" where
  "to_float U x =
     (let s = strip (astype_str x)
      in if s = [] \<or> lower U s \<in> set [ascii ''nan'', ascii ''<na>'', ascii ''none''] then Fin 0
         else
           (let s' = (if 44 \<in> set s \<and> 46 \<in> set s \<and> rfind s 44 > rfind s 46
                      then replace_char 44 [46] (replace_char 46 [] (replace_char 32 [] s))
                      else replace_char 44 [46] s)
            in case float_of_string U s' of
                 Some v \<Rightarrow> v
               | None \<Rightarrow> (case float_of_cell U x of Some v \<Rightarrow> v | None \<Rightarrow> Fin 0)))"

section \<open>Row filters by plant and cost-centre code\<close>

text \<open>
  \<^verbatim>\<open>cost_components.filter_by_codes\<close> and \<^verbatim>\<open>Engine.filter_df_by_codes\<close> build their mask
  with the same statements:
  \<^verbatim>\<open>
      mask = pd.Series(True, index=df.index)
      if plant_code and found.plant_col:
          s = df[found.plant_col].astype(str).str.strip()
          eq = s.str.casefold() == plant_code.casefold()
          mask &= (eq if eq.any() else s.str.contains(plant_code, case=False, na=False, regex=False))
  \<close>
  \<^verbatim>\<open>Series.str.contains(pat, case=False, regex=False)\<close> tests
  \<^verbatim>\<open>pat.upper() in x.upper()\<close>. \<open>code_mask\<close> is the right-hand side of \<^verbatim>\<open>&=\<close>,
  \<open>and_code_mask\<close> the guarded statement.
\<close>

definition contains_ci :: "unicode_db \<Rightarrow> ustring \<Rightarrow> ustring \<Rightarrow> bool" where
  "contains_ci U pat x = substring (upper U pat) (upper U x)"

definition code_mask :: "unicode_db \<Rightarrow> cell list \<Rightarrow> ustring \<Rightarrow> bool list" where
  "code_mask U vs code =
     (let s = map (\<lambda>v. strip (astype_str v)) vs;
          eq = map (\<lambda>x. casefold U x = casefold U code) s
      in if list_ex id eq then eq else map (contains_ci U code) s)"

definition and_code_mask ::
  "unicode_db \<Rightarrow> cell table \<Rightarrow> bool list \<Rightarrow> ustring option \<Rightarrow> ustring option \<Rightarrow> error + bool list" where
  "and_code_mask U t msk code col =
     (if truthy code \<and> truthy col
      then (case getitem t (the col) of
              Inl e \<Rightarrow> Inl e
            | Inr vs \<Rightarrow> Inr (map2 (\<and>) msk (code_mask U vs (the code))))
      else Inr msk)"

subsection \<open>cost_components.filter_by_codes\<close>

text \<open>
  \<^verbatim>\<open>
  @dataclass
  class FoundColumns:
      plant_col: Optional[str]
      cctr_col: Optional[str]
      comp_cols: Dict[str, Optional[str]]

  def filter_by_codes(df, plant_code, cctr_code, found):
      if df is None or df.empty:
          return pd.DataFrame()
      mask = pd.Series(True, index=df.index)
      if plant_code and found.plant_col: ...
      if cctr_code and found.cctr_col: ...
      return df.loc[mask].copy()
  \<close>
\<close>

record found_columns =
  plant_col :: "ustring option"
  cctr_col :: "ustring option"
  comp_cols :: "(ustring \<times> ustring option) list"

definition filter_by_codes ::
  "unicode_db \<Rightarrow> cell table option \<Rightarrow> ustring option \<Rightarrow> ustring option \<Rightarrow> found_columns \<Rightarrow>
     error + cell table" where
  "filter_by_codes U df plant_code cctr_code found =
     (case df of
        None \<Rightarrow> Inr DataFrame
      | Some t \<Rightarrow>
         (if empty_df t then Inr DataFrame
          else
            (case and_code_mask U t (replicate (length (rows t)) True) plant_code (plant_col found) of
               Inl e \<Rightarrow> Inl e
             | Inr m1 \<Rightarrow>
                (case and_code_mask U t m1 cctr_code (cctr_col found) of
                   Inl e \<Rightarrow> Inl e
                 | Inr m2 \<Rightarrow> Inr (loc_mask t m2)))))"

section \<open>cost_components.eval_formulas_on_rows\<close>

text \<open>
  \<^verbatim>\<open>
  COMPONENTS = ["AMOR", "DIS", "EDIS", "ENER", "GUG"]

  def eval_formulas_on_rows(components_df, formulas):
      out = components_df.copy()
      for name, expr in formulas.items():
          if not isinstance(expr, str):
              continue
          if not pd.notna(expr):
              continue
          if not pd.Series(list(expr)).map(
                  lambda ch: ch.isalnum() or ch.isspace() or ch in "+-*/_").all():
              continue
          local_env = {comp: out[comp] if comp in out.columns else 0.0 for comp in COMPONENTS}
          try:
              out[name] = eval(expr, {"__builtins__": {}}, local_env)
          except Exception:
              pass
      return out
  \<close>
  The table is generic in its cells (numbers, in the pipeline). A formula's expression is a
  string or some other object; \<^verbatim>\<open>pd.notna\<close> of a string is true. The dictionary of
  formulas is an association list in insertion order.

  Python's \<^verbatim>\<open>eval\<close> is the interpreter's, not the repository's: it is the parameter
  \<open>pyeval\<close>. Given the expression and the bindings it either raises (also when the
  assignment of its value to the column would raise) or yields the value to assign, which the
  model keeps as the cell for each row position (a scalar gives every row the same cell, a
  series the cell at that position). The \<^verbatim>\<open>try\<close> statement turns \<open>Raises\<close> into leaving
  \<open>out\<close> as it is.
\<close>

definition COMPONENTS :: "ustring list" where
  "COMPONENTS = [ascii ''AMOR'', ascii ''DIS'', ascii ''EDIS'', ascii ''ENER'', ascii ''GUG'']"

datatype formula_expr = ExprStr ustring | ExprOther

datatype 'c env_value = Series "'c list" | Zero

datatype 'c eval_result = Raises | Value "nat \<Rightarrow> 'c"

definition isalnum :: "unicode_db \<Rightarrow> nat \<Rightarrow> bool" where
  "isalnum U c = (if c < 128 then ascii_alnum c else alnum_tab U c)"

definition allowed_char :: "unicode_db \<Rightarrow> nat \<Rightarrow> bool" where
  "allowed_char U ch \<longleftrightarrow> isalnum U ch \<or> isspace ch \<or> ch \<in> set (ascii ''+-*/_'')"

definition local_env :: "'c table \<Rightarrow> (ustring \<times> 'c env_value) list" where
  "local_env out =
     map (\<lambda>comp. (comp, case index_of (columns out) comp of
                           Some i \<Rightarrow> Series (map (\<lambda>r. r ! i) (rows out))
                         | None \<Rightarrow> Zero))
       COMPONENTS"

text \<open>
  \<^verbatim>\<open>out[name] = value\<close>: an existing column takes the new cells in place, a new column is
  appended on the right.
\<close>

definition set_column :: "'c table \<Rightarrow> ustring \<Rightarrow> (nat \<Rightarrow> 'c) \<Rightarrow> 'c table" where
  "set_column t name f =
     (case index_of (columns t) name of
        None \<Rightarrow> \<lparr>columns = columns t @ [name],
                  rows = map (\<lambda>(i, r). r @ [f i]) (enumerate 0 (rows t))\<rparr>
      | Some j \<Rightarrow> \<lparr>columns = columns t,
                    rows = map (\<lambda>(i, r). r[j := f i]) (enumerate 0 (rows t))\<rparr>)"

definition formula_step ::
  "unicode_db \<Rightarrow> (ustring \<Rightarrow> (ustring \<times> 'c env_value) list \<Rightarrow> 'c eval_result) \<Rightarrow>
     'c table \<Rightarrow> ustring \<times> formula_expr \<Rightarrow> 'c table" where
  "formula_step U pyeval out nx =
     (case snd nx of
        ExprOther \<Rightarrow> out
      | ExprStr expr \<Rightarrow>
          (if \<not> list_all (allowed_char U) expr then out
           else (case pyeval expr (local_env out) of
                   Raises \<Rightarrow> out
                 | Value f \<Rightarrow> set_column out (fst nx) f)))"

definition eval_formulas_on_rows ::
  "unicode_db \<Rightarrow> (ustring \<Rightarrow> (ustring \<times> 'c env_value) list \<Rightarrow> 'c eval_result) \<Rightarrow>
     'c table \<Rightarrow> (ustring \<times> formula_expr) list \<Rightarrow> 'c table" where
  "eval_formulas_on_rows U pyeval components_df formulas =
     foldl (formula_step U pyeval) components_df formulas"


text \<open>
  The frame of the evaluator: the columns of \<open>df\<close> are the leading columns of \<open>out\<close>,
  every row of \<open>out\<close> starts with the row of \<open>df\<close> at its position, and no row is shorter
  than that.
\<close>

definition frame_inv :: "'c table \<Rightarrow> 'c table \<Rightarrow> bool" where
  "frame_inv df out \<longleftrightarrow>
     take (length (columns df)) (columns out) = columns df
     \<and> map (take (length (columns df))) (rows out) = rows df
     \<and> list_all (\<lambda>r. length (columns df) \<le> length r) (rows out)"

section \<open>data_engine.py\<close>

text \<open>
  \<^verbatim>\<open>
  FOUR_KEYS = ["is_yeri_kodu", "masraf_yeri_kodu", "makine_kodu"]
  FALLBACK_LABELS = {"is_yeri_kodu": "I-dotted s-cedilla Yeri Kodu",
                     "masraf_yeri_kodu": "Masraf Yeri Kodu", "makine_kodu": "Makine Kodu"}
  \<close>
\<close>

definition FOUR_KEYS :: "ustring list" where
  "FOUR_KEYS = [ascii ''is_yeri_kodu'', ascii ''masraf_yeri_kodu'', ascii ''makine_kodu'']"

definition FALLBACK_LABELS :: "(ustring \<times> ustring) list" where
  "FALLBACK_LABELS =
     [(ascii ''is_yeri_kodu'', [304, 351] @ ascii '' Yeri Kodu''),
      (ascii ''masraf_yeri_kodu'', ascii ''Masraf Yeri Kodu''),
      (ascii ''makine_kodu'', ascii ''Makine Kodu'')]"

text \<open>
  The state of an \<^verbatim>\<open>Engine\<close>: the schema, the system table \<^verbatim>\<open>src_df\<close>, the staged
  table \<^verbatim>\<open>staged_df\<close>, the processed table, the two file lists and the manual values (a
  dictionary). The mapper is determined by the schema; the state directory is not modelled.
\<close>

record engine =
  schema_of :: schema
  src_df :: "cell table option"
  staged_df :: "cell table option"
  processed_df :: "cell table option"
  loaded_files_top :: "ustring list"
  loaded_files_bottom :: "ustring list"
  manual_values :: "(ustring \<times> ustring) list"

text \<open>
  \<^verbatim>\<open>
  def _cands(self, key):
      meta = self.schema.get(key, {})
      return [meta.get("label", FALLBACK_LABELS.get(key, key)), *meta.get("synonyms", []), key]
  \<close>
\<close>

definition cands :: "engine \<Rightarrow> ustring \<Rightarrow> ustring list" where
  "cands E key =
     (let fallback = (case map_of FALLBACK_LABELS key of Some l \<Rightarrow> l | None \<Rightarrow> key)
      in case map_of (schema_of E) key of
           None \<Rightarrow> [fallback, key]
         | Some meta \<Rightarrow>
             (case label meta of Some l \<Rightarrow> l | None \<Rightarrow> fallback) # synonyms meta @ [key])"

text \<open>
  \<^verbatim>\<open>
  def find_col_by_candidates(self, df, candidates):
      if df is None or df.columns is None:
          return None
      norm_map = {normalize(c): c for c in df.columns}
      for cand in candidates:
          n = normalize(cand)
          if n in norm_map:
              return norm_map[n]
      for col in df.columns:
          if any(normalize(c) in normalize(col) for c in candidates):
              return col
      return None
  \<close>
  \<^verbatim>\<open>cost_components._find_col_by_candidates\<close> is the same function.
\<close>

fun first_col_containing :: "unicode_db \<Rightarrow> ustring list \<Rightarrow> ustring list \<Rightarrow> ustring option" where
  "first_col_containing U [] candidates = None"
| "first_col_containing U (col # cols) candidates =
     (if list_ex (\<lambda>c. substring (normalize_text U (Some c)) (normalize_text U (Some col))) candidates
      then Some col
      else first_col_containing U cols candidates)"

definition find_col_by_candidates ::
  "unicode_db \<Rightarrow> 'c table option \<Rightarrow> ustring list \<Rightarrow> ustring option" where
  "find_col_by_candidates U df candidates =
     (case df of
        None \<Rightarrow> None
      | Some t \<Rightarrow>
          (let norm_map = norm_headers_map U (columns t)
           in case exact_hit norm_map (map (\<lambda>cand. normalize_text U (Some cand)) candidates) of
                Some col \<Rightarrow> Some col
              | None \<Rightarrow> first_col_containing U (columns t) candidates))"

subsection \<open>Engine.import_staged_into_system\<close>

text \<open>
  \<^verbatim>\<open>
  def import_staged_into_system(self, replace_on_keys=True):
      if self.staged_df is None or self.staged_df.empty:
          return (0, 0)
      if self.src_df is None or self.src_df.empty:
          self.src_df = self.staged_df.copy()
          return (0, len(self.staged_df))
      top_is = self.find_col_by_candidates(self.src_df, self._cands("is_yeri_kodu"))
      top_ms = self.find_col_by_candidates(self.src_df, self._cands("masraf_yeri_kodu"))
      bot_is = self.find_col_by_candidates(self.staged_df, self._cands("is_yeri_kodu"))
      bot_ms = self.find_col_by_candidates(self.staged_df, self._cands("masraf_yeri_kodu"))
      if replace_on_keys and top_is and top_ms and bot_is and bot_ms:
          key_pairs = set(zip(
              self.staged_df[bot_is].astype(str).str.strip().str.casefold(),
              self.staged_df[bot_ms].astype(str).str.strip().str.casefold()))
          before = len(self.src_df)
          mask_keep = ~(self.src_df[top_is].astype(str).str.strip().str.casefold().combine(
                  self.src_df[top_ms].astype(str).str.strip().str.casefold(),
                  lambda a, b: (a, b)).isin(key_pairs))
          self.src_df = self.src_df.loc[mask_keep].reset_index(drop=True)
          removed = before - len(self.src_df)
      else:
          removed = 0
      self.src_df = pd.concat([self.src_df, self.staged_df], ignore_index=True, join="outer")
      added = len(self.staged_df)
      return (removed, added)
  \<close>
  \<open>key_series\<close> is \<^verbatim>\<open>df[c].astype(str).str.strip().str.casefold()\<close>; \<open>key_pairs_of\<close>
  zips two such series of one frame.
\<close>

definition key_of_cell :: "unicode_db \<Rightarrow> cell \<Rightarrow> ustring" where
  "key_of_cell U v = casefold U (strip (astype_str v))"

definition key_series :: "unicode_db \<Rightarrow> cell table \<Rightarrow> ustring \<Rightarrow> error + ustring list" where
  "key_series U t c =
     (case getitem t c of Inl e \<Rightarrow> Inl e | Inr vs \<Rightarrow> Inr (map (key_of_cell U) vs))"

definition key_pairs_of ::
  "unicode_db \<Rightarrow> cell table \<Rightarrow> ustring \<Rightarrow> ustring \<Rightarrow> error + (ustring \<times> ustring) list" where
  "key_pairs_of U t c1 c2 =
     (case key_series U t c1 of
        Inl e \<Rightarrow> Inl e
      | Inr k1 \<Rightarrow> (case key_series U t c2 of Inl e \<Rightarrow> Inl e | Inr k2 \<Rightarrow> Inr (zip k1 k2)))"

definition import_staged_into_system ::
  "unicode_db \<Rightarrow> engine \<Rightarrow> bool \<Rightarrow> error + (engine \<times> nat \<times> nat)" where
  "import_staged_into_system U E replace_on_keys =
     (if none_or_empty (staged_df E) then Inr (E, 0, 0)
      else case staged_df E of
        None \<Rightarrow> Inr (E, 0, 0)
      | Some staged \<Rightarrow>
         (if none_or_empty (src_df E)
          then Inr (E\<lparr>src_df := Some staged\<rparr>, 0, length (rows staged))
          else case src_df E of
            None \<Rightarrow> Inr (E\<lparr>src_df := Some staged\<rparr>, 0, length (rows staged))
          | Some src \<Rightarrow>
             (let top_is = find_col_by_candidates U (Some src) (cands E (ascii ''is_yeri_kodu''));
                  top_ms = find_col_by_candidates U (Some src) (cands E (ascii ''masraf_yeri_kodu''));
                  bot_is = find_col_by_candidates U (Some staged) (cands E (ascii ''is_yeri_kodu''));
                  bot_ms = find_col_by_candidates U (Some staged) (cands E (ascii ''masraf_yeri_kodu''))
              in if replace_on_keys \<and> truthy top_is \<and> truthy top_ms \<and> truthy bot_is \<and> truthy bot_ms
                 then
                   (case key_pairs_of U staged (the bot_is) (the bot_ms) of
                      Inl e \<Rightarrow> Inl e
                    | Inr key_pairs \<Rightarrow>
                       (case key_pairs_of U src (the top_is) (the top_ms) of
                          Inl e \<Rightarrow> Inl e
                        | Inr top_pairs \<Rightarrow>
                           (let before = length (rows src);
                                mask_keep = map (\<lambda>p. p \<notin> set key_pairs) top_pairs;
                                kept = loc_mask src mask_keep;
                                removed = before - length (rows kept)
                            in Inr (E\<lparr>src_df := Some (concat_df kept staged)\<rparr>,
                                    removed, length (rows staged)))))
                 else Inr (E\<lparr>src_df := Some (concat_df src staged)\<rparr>, 0, length (rows staged)))))"

text \<open>
  For stating what the import does row by row: the key pair of a row of \<open>t\<close> under the
  columns \<open>c1\<close> and \<open>c2\<close>, and a row of \<open>t\<close> laid out on the columns of the merged table.
\<close>

definition cell_at :: "cell table \<Rightarrow> ustring \<Rightarrow> cell list \<Rightarrow> cell" where
  "cell_at t c r = (case index_of (columns t) c of None \<Rightarrow> NaN | Some i \<Rightarrow> r ! i)"

definition row_key :: "unicode_db \<Rightarrow> cell table \<Rightarrow> ustring \<Rightarrow> ustring \<Rightarrow> cell list \<Rightarrow> ustring \<times> ustring" where
  "row_key U t c1 c2 r = (key_of_cell U (cell_at t c1 r), key_of_cell U (cell_at t c2 r))"

definition merged_columns :: "cell table \<Rightarrow> cell table \<Rightarrow> ustring list" where
  "merged_columns a b = columns a @ filter (\<lambda>c. c \<notin> set (columns a)) (columns b)"

subsection \<open>Engine.autofill_manual_from_df\<close>









subsection \<open>Engine.filter_df_by_codes\<close>

text \<open>
  \<^verbatim>\<open>
  def filter_df_by_codes(self, df, isyeri, masraf):
      if df is None or df.empty:
          return pd.DataFrame()
      col_is = self.find_col_by_candidates(df, self._cands("is_yeri_kodu")) if isyeri else None
      col_ms = self.find_col_by_candidates(df, self._cands("masraf_yeri_kodu")) if masraf else None
      mask = pd.Series(True, index=df.index)
      if isyeri and col_is: ...
      if masraf and col_ms: ...
      sub = df.loc[mask]
      if sub.empty:
          return pd.DataFrame()
      cols = list(sub.columns)
      if "__kaynak_dosya__" in cols:
          cols = ["__kaynak_dosya__"] + [c for c in cols if c != "__kaynak_dosya__"]
          sub = sub.loc[:, cols]
      return sub.reset_index(drop=True)
  \<close>
  \<open>provenance_first\<close> is the part after the test \<^verbatim>\<open>sub.empty\<close>.
\<close>

definition provenance_first :: "cell table \<Rightarrow> cell table" where
  "provenance_first sub =
     (let cols = columns sub; kd = ascii ''__kaynak_dosya__''
      in if kd \<in> set cols
         then (let cols' = kd # filter (\<lambda>c. c \<noteq> kd) cols
               in \<lparr>columns = cols', rows = map (reindex sub cols') (rows sub)\<rparr>)
         else sub)"

definition filter_df_by_codes ::
  "unicode_db \<Rightarrow> engine \<Rightarrow> cell table option \<Rightarrow> ustring option \<Rightarrow> ustring option \<Rightarrow>
     error + cell table" where
  "filter_df_by_codes U E df isyeri masraf =
     (case df of
        None \<Rightarrow> Inr DataFrame
      | Some t \<Rightarrow>
         (if empty_df t then Inr DataFrame
          else
            (let col_is = (if truthy isyeri
                           then find_col_by_candidates U (Some t) (cands E (ascii ''is_yeri_kodu''))
                           else None);
                 col_ms = (if truthy masraf
                           then find_col_by_candidates U (Some t) (cands E (ascii ''masraf_yeri_kodu''))
                           else None)
             in case and_code_mask U t (replicate (length (rows t)) True) isyeri col_is of
                  Inl e \<Rightarrow> Inl e
                | Inr m1 \<Rightarrow>
                   (case and_code_mask U t m1 masraf col_ms of
                      Inl e \<Rightarrow> Inl e
                    | Inr m2 \<Rightarrow>
                       (let sub = loc_mask t m2
                        in if empty_df sub then Inr DataFrame else Inr (provenance_first sub))))))"

text \<open>
  The filter in the words of the specification. A row meets the constraint of a code on
  a column when the code or the column is missing, or else: if some row of the table has a
  trimmed value equal to the code up to case, when its own trimmed value is; otherwise, when
  its trimmed value contains the code up to case.
\<close>

definition trimmed_value :: "cell table \<Rightarrow> ustring \<Rightarrow> cell list \<Rightarrow> ustring" where
  "trimmed_value t col r = strip (astype_str (cell_at t col r))"

definition equals_code :: "unicode_db \<Rightarrow> cell table \<Rightarrow> ustring \<Rightarrow> ustring \<Rightarrow> cell list \<Rightarrow> bool" where
  "equals_code U t col code r \<longleftrightarrow> casefold U (trimmed_value t col r) = casefold U code"

definition meets_code ::
  "unicode_db \<Rightarrow> cell table \<Rightarrow> ustring option \<Rightarrow> ustring option \<Rightarrow> cell list \<Rightarrow> bool" where
  "meets_code U t code col r \<longleftrightarrow>
     (if truthy code \<and> truthy col
      then (if list_ex (equals_code U t (the col) (the code)) (rows t)
            then equals_code U t (the col) (the code) r
            else contains_ci U (the code) (trimmed_value t (the col) r))
      else True)"

section \<open>Example data\<close>

text \<open>
  Tables and an engine for running the model: a system table with the columns
  \<open>Plant\<close>, \<open>CC\<close>, \<open>AMOR\<close>, a staged table with \<open>Plant\<close> and \<open>CC\<close> whose first row
  has the key of the first system row up to case and surrounding spaces, a staged table that
  names its key columns \<open>site\<close> and \<open>cost center\<close>, and two tables without key columns.
\<close>

definition engine0 :: "cell table option \<Rightarrow> cell table option \<Rightarrow> engine" where
  "engine0 src staged =
     \<lparr>schema_of = DEFAULT_SCHEMA, src_df = src, staged_df = staged, processed_df = None,
      loaded_files_top = [], loaded_files_bottom = [], manual_values = []\<rparr>"

definition system_tab :: "cell table" where
  "system_tab =
     \<lparr>columns = [ascii ''Plant'', ascii ''CC'', ascii ''AMOR''],
      rows = [[Str (ascii ''P1''), Str (ascii ''C1''), Str (ascii ''100'')],
              [Str (ascii ''P2''), Str (ascii ''C2''), Str (ascii ''50'')]]\<rparr>"

definition staged_tab :: "cell table" where
  "staged_tab =
     \<lparr>columns = [ascii ''Plant'', ascii ''CC''],
      rows = [[Str (ascii '' p1 ''), Str (ascii ''c1'')],
              [Str (ascii ''P3''), Str (ascii ''C3'')]]\<rparr>"

definition site_tab :: "cell table" where
  "site_tab =
     \<lparr>columns = [ascii ''site'', ascii ''cost center''],
      rows = [[Str (ascii ''P2''), Str (ascii ''C2'')]]\<rparr>"

definition plain_tab :: "ustring \<Rightarrow> cell table" where
  "plain_tab v = \<lparr>columns = [ascii ''a''], rows = [[Str v]]\<rparr>"


text \<open>
  Two tables for the filters: in \<open>ext_tab\<close> no plant value equals \<open>P1\<close> and one contains
  it; in \<open>both_tab\<close> one plant value equals \<open>P1\<close> and another contains it.
\<close>

definition ext_tab :: "cell table" where
  "ext_tab =
     \<lparr>columns = [ascii ''Plant'', ascii ''CC''],
      rows = [[Str (ascii ''P1-EXT''), Str (ascii ''C1'')],
              [Str (ascii ''P2''), Str (ascii ''C1'')]]\<rparr>"

definition both_tab :: "cell table" where
  "both_tab =
     \<lparr>columns = [ascii ''Plant'', ascii ''CC''],
      rows = [[Str (ascii ''P1-EXT''), Str (ascii ''C1'')],
              [Str (ascii '' p1 ''), Str (ascii ''C1'')],
              [Str (ascii ''P1''), Str (ascii ''C2'')]]\<rparr>"

text \<open>
  A components table with integer cells, and a stand-in for \<^verbatim>\<open>eval\<close> that knows one
  expression: it adds the series bound to \<open>AMOR\<close> and \<open>DIS\<close> for \<open>AMOR + DIS\<close> and
  raises on everything else.
\<close>

definition comp_tab :: "int table" where
  "comp_tab = \<lparr>columns = [ascii ''AMOR'', ascii ''DIS''], rows = [[1, 2], [3, 4]]\<rparr>"

definition sum_eval :: "ustring \<Rightarrow> (ustring \<times> int env_value) list \<Rightarrow> int eval_result" where
  "sum_eval expr env =
     (if expr = ascii ''AMOR + DIS''
      then (case (map_of env (ascii ''AMOR''), map_of env (ascii ''DIS'')) of
              (Some (Series a), Some (Series d)) \<Rightarrow> Value (\<lambda>i. a ! i + d ! i)
            | _ \<Rightarrow> Raises)
      else Raises)"

section \<open>ASCII literals\<close>

lemma ascii_eq_iff: "ascii s = ascii t \<longleftrightarrow> s = t"
  by (simp add: ascii_def inj_map_eq_map inj_on_def)


chapter \<open>Properties\<close>

section \<open>The text normalizer\<close>

































section \<open>The column mapper\<close>

lemma map_of_dict_set: "map_of (dict_set d k v) k' = (if k' = k then Some v else map_of d k')"
  by (induction d k v rule: dict_set.induct) auto

lemma map_of_fold_headers:
  "map_of (foldl (\<lambda>d h. dict_set d (normalize_text U (Some h)) h) d0 hs) k =
     (if headers_with_key U hs k = [] then map_of d0 k else Some (last (headers_with_key U hs k)))"
proof (induction hs arbitrary: d0)
  case Nil
  then show ?case by (simp add: headers_with_key_def)
next
  case (Cons h hs)
  show ?case
    by (simp add: Cons.IH map_of_dict_set) (simp add: headers_with_key_def)
qed

lemma map_of_norm_headers_map:
  "map_of (norm_headers_map U hs) k =
     (if headers_with_key U hs k = [] then None else Some (last (headers_with_key U hs k)))"
  by (simp add: norm_headers_map_def map_of_fold_headers)

lemma map_of_fold_schema:
  assumes "distinct (map fst sch)" and "(k, x) \<in> set sch"
  shows "map_of (foldl (\<lambda>m (k, x). dict_set m k (g k x)) m0 sch) k = Some (g k x)"
  using assms
proof (induction sch rule: rev_induct)
  case Nil
  then show ?case by simp
next
  case (snoc a sch)
  obtain k' x' where a: "a = (k', x')" by (cases a)
  show ?case
  proof (cases "k' = k")
    case True
    with snoc.prems a have "x' = x" by (auto simp: rev_image_eqI)
    with True a show ?thesis by (simp add: map_of_dict_set)
  next
    case False
    with snoc a show ?thesis by (auto simp: map_of_dict_set)
  qed
qed

lemma map_of_suggest_mapping:
  assumes "distinct (map fst sch)" and "(canonical, meta) \<in> set sch"
  shows "map_of (suggest_mapping U close sch headers) canonical =
     Some (suggest_field U close (norm_headers_map U headers) canonical meta)"
  unfolding suggest_mapping_def Let_def
  by (rule map_of_fold_schema[OF assms])

lemma exact_hit_skip:
  "\<forall>c\<in>set pre. map_of d c = None \<Longrightarrow> exact_hit d (pre @ cs) = exact_hit d cs"
  by (induction pre) simp_all

lemma exact_hit_found:
  "c \<in> set cs \<Longrightarrow> map_of d c = Some h \<Longrightarrow> \<exists>c'\<in>set cs. \<exists>h'. exact_hit d cs = Some h' \<and> map_of d c' = Some h'"
  by (induction cs) (auto split: option.splits)

lemma headers_with_key_last:
  "headers_with_key U hs k \<noteq> [] \<Longrightarrow>
     last (headers_with_key U hs k) \<in> set hs \<and> normalize_text U (Some (last (headers_with_key U hs k))) = k"
proof -
  assume "headers_with_key U hs k \<noteq> []"
  then have "last (headers_with_key U hs k) \<in> set (headers_with_key U hs k)" by (rule last_in_set)
  then show ?thesis by (simp add: headers_with_key_def)
qed

text \<open>The definitions that evaluate \<open>normalize_text\<close> on a literal.\<close>

lemmas norm_eval = normalize_text_def ascii_def strip_def isspace_def translate_def translate1_def
        TURKISH_CHAR_MAP_def nfkd_ascii_def nfkd_ascii1_def ascii_lower_def lower1_def az09_def

lemma is_yeri_candidates:
  "map (\<lambda>x. normalize_text U (Some x))
     [ascii ''is_yeri_kodu'', ascii ''is yeri'', ascii ''i'' @ [351] @ ascii '' yeri'', ascii ''plant'',
      ascii ''site'', ascii ''plant code'', ascii ''i'' @ [351] @ ascii ''yeri'', ascii ''isyeri'']
   = [ascii ''is yeri kodu'', ascii ''is yeri'', ascii ''is yeri'', ascii ''plant'', ascii ''site'',
      ascii ''plant code'', ascii ''isyeri'', ascii ''isyeri'']"
  by (simp add: norm_eval)

lemma plant_headers:
  "normalize_text U (Some (ascii ''Plant'')) = ascii ''plant''"
  "normalize_text U (Some (ascii ''PLANT'')) = ascii ''plant''"
  by (simp_all add: norm_eval)

text \<open>
  Claim C7. When a candidate of a canonical field (its key or one of its synonyms) equals an
  observed header after normalization, the field is mapped to an observed header whose
  normalized form is that of a candidate, and the mapping of the field is the same for every
  close-match function: the fuzzy pass is not consulted, whatever it would have found.
\<close>

theorem suggest_mapping_exact_precedence:
  assumes "distinct (map fst sch)" and "(canonical, meta) \<in> set sch"
    and "cand \<in> set (canonical # synonyms meta)" and "h \<in> set headers"
    and "normalize_text U (Some cand) = normalize_text U (Some h)"
  shows "\<exists>h'\<in>set headers.
           normalize_text U (Some h') \<in> (\<lambda>x. normalize_text U (Some x)) ` set (canonical # synonyms meta)
           \<and> (\<forall>close. map_of (suggest_mapping U close sch headers) canonical = Some (Some h'))"
proof -
  let ?d = "norm_headers_map U headers"
  let ?cn = "map (\<lambda>x. normalize_text U (Some x)) (canonical # synonyms meta)"
  let ?k = "normalize_text U (Some cand)"
  from assms(4,5) have ne: "headers_with_key U headers ?k \<noteq> []"
    by (auto simp: headers_with_key_def filter_empty_conv)
  then have "map_of ?d ?k = Some (last (headers_with_key U headers ?k))"
    by (simp add: map_of_norm_headers_map)
  moreover from assms(3) have "?k \<in> set ?cn" by auto
  ultimately obtain c' h' where c': "c' \<in> set ?cn" and ex: "exact_hit ?d ?cn = Some h'"
    and m: "map_of ?d c' = Some h'"
    using exact_hit_found by blast
  from m have ne': "headers_with_key U headers c' \<noteq> []" and h': "h' = last (headers_with_key U headers c')"
    by (auto simp: map_of_norm_headers_map split: if_splits)
  from headers_with_key_last[OF ne'] h' have "h' \<in> set headers" and "normalize_text U (Some h') = c'"
    by simp_all
  moreover from ex have "\<And>close. suggest_field U close ?d canonical meta = Some h'"
    by (simp add: suggest_field_def)
  ultimately show ?thesis
    using c' map_of_suggest_mapping[OF assms(1,2)] by auto
qed

lemma suggest_mapping_hit:
  assumes "distinct (map fst sch)" and "(canonical, meta) \<in> set sch"
    and "map (\<lambda>x. normalize_text U (Some x)) (canonical # synonyms meta) = pre @ c # post"
    and "list_all (\<lambda>c'. headers_with_key U headers c' = []) pre"
    and "headers_with_key U headers c \<noteq> []"
  shows "map_of (suggest_mapping U close sch headers) canonical
           = Some (Some (last (headers_with_key U headers c)))"
proof -
  let ?d = "norm_headers_map U headers"
  from assms(4) have "\<forall>c'\<in>set pre. map_of ?d c' = None"
    by (simp add: list_all_iff map_of_norm_headers_map)
  then have "exact_hit ?d (pre @ c # post) = exact_hit ?d (c # post)" by (rule exact_hit_skip)
  also have "\<dots> = Some (last (headers_with_key U headers c))"
    using assms(5) by (simp add: map_of_norm_headers_map)
  finally have "suggest_field U close ?d canonical meta = Some (last (headers_with_key U headers c))"
    using assms(3) by (simp add: suggest_field_def del: list.map)
  with map_of_suggest_mapping[OF assms(1,2)] show ?thesis by simp
qed

lemma DEFAULT_SCHEMA_keys:
  "distinct (map fst DEFAULT_SCHEMA)"
  by (simp add: DEFAULT_SCHEMA_def ascii_def)

lemma DEFAULT_SCHEMA_is_yeri:
  "\<exists>meta. (ascii ''is_yeri_kodu'', meta) \<in> set DEFAULT_SCHEMA
     \<and> label meta = Some ([304, 351] @ ascii '' Yeri Kodu'')
     \<and> synonyms meta = [ascii ''is yeri'', ascii ''i'' @ [351] @ ascii '' yeri'', ascii ''plant'',
                     ascii ''site'', ascii ''plant code'', ascii ''i'' @ [351] @ ascii ''yeri'',
                     ascii ''isyeri'']"
  by (rule exI[of _ "snd (hd DEFAULT_SCHEMA)"]) (simp add: DEFAULT_SCHEMA_def)

lemma plant_headers_with_key:
  "headers_with_key U [ascii ''Plant'', ascii ''PLANT''] (ascii ''plant'') = [ascii ''Plant'', ascii ''PLANT'']"
  "headers_with_key U [ascii ''Plant'', ascii ''PLANT''] (ascii ''is yeri kodu'') = []"
  "headers_with_key U [ascii ''Plant'', ascii ''PLANT''] (ascii ''is yeri'') = []"
  by (simp_all add: headers_with_key_def plant_headers) (simp_all add: ascii_def)

lemma plant_hit_premises:
  assumes "synonyms meta = [ascii ''is yeri'', ascii ''i'' @ [351] @ ascii '' yeri'', ascii ''plant'',
                     ascii ''site'', ascii ''plant code'', ascii ''i'' @ [351] @ ascii ''yeri'',
                     ascii ''isyeri'']"
  shows "map (\<lambda>x. normalize_text U (Some x)) (ascii ''is_yeri_kodu'' # synonyms meta)
      = [ascii ''is yeri kodu'', ascii ''is yeri'', ascii ''is yeri''] @ ascii ''plant'' #
         [ascii ''site'', ascii ''plant code'', ascii ''isyeri'', ascii ''isyeri'']"
    and "list_all (\<lambda>c'. headers_with_key U [ascii ''Plant'', ascii ''PLANT''] c' = [])
       [ascii ''is yeri kodu'', ascii ''is yeri'', ascii ''is yeri'']"
    and "headers_with_key U [ascii ''Plant'', ascii ''PLANT''] (ascii ''plant'') \<noteq> []"
    and "last (headers_with_key U [ascii ''Plant'', ascii ''PLANT''] (ascii ''plant'')) = ascii ''PLANT''"
proof -
  show "map (\<lambda>x. normalize_text U (Some x)) (ascii ''is_yeri_kodu'' # synonyms meta)
      = [ascii ''is yeri kodu'', ascii ''is yeri'', ascii ''is yeri''] @ ascii ''plant'' #
         [ascii ''site'', ascii ''plant code'', ascii ''isyeri'', ascii ''isyeri'']"
    unfolding assms using is_yeri_candidates[of U] by simp
qed (simp_all add: plant_headers_with_key)

text \<open>
  Claim C3, as the code has it. The lookup from normalized key to header is built by a
  dictionary comprehension, so among headers with the same normalized key the one seen last
  is stored. When \<open>c\<close> is the first normalized candidate of a field that is the key of
  some header, the field is mapped to the last header of the input sequence with key \<open>c\<close>.
\<close>

theorem suggest_mapping_last_header_wins:
  assumes "distinct (map fst sch)" and "(canonical, meta) \<in> set sch"
    and "map (\<lambda>x. normalize_text U (Some x)) (canonical # synonyms meta) = pre @ c # post"
    and "list_all (\<lambda>c'. headers_with_key U headers c' = []) pre"
    and "headers_with_key U headers c \<noteq> []"
  shows "map_of (suggest_mapping U close sch headers) canonical
           = Some (Some (last (headers_with_key U headers c)))"
  using assms by (rule suggest_mapping_hit)

theorem suggest_mapping_last_header_wins_witness:
  "map_of (suggest_mapping unicode_excerpt (\<lambda>nh cs. []) DEFAULT_SCHEMA [ascii ''Plant'', ascii ''PLANT''])
      (ascii ''is_yeri_kodu'') = Some (Some (ascii ''PLANT''))"
proof -
  from DEFAULT_SCHEMA_is_yeri obtain meta where m: "(ascii ''is_yeri_kodu'', meta) \<in> set DEFAULT_SCHEMA"
    and s: "synonyms meta = [ascii ''is yeri'', ascii ''i'' @ [351] @ ascii '' yeri'', ascii ''plant'',
                     ascii ''site'', ascii ''plant code'', ascii ''i'' @ [351] @ ascii ''yeri'',
                     ascii ''isyeri'']" by blast
  note p = plant_hit_premises [OF s, of unicode_excerpt]
  from suggest_mapping_last_header_wins [OF DEFAULT_SCHEMA_keys m p(1) p(2) p(3)]
  show ?thesis by (simp only: p(4))
qed

text \<open>
  The headers \<open>Plant\<close> and \<open>PLANT\<close> share the key \<open>plant\<close>, a synonym of
  \<open>is_yeri_kodu\<close>; the field is not mapped to the first of them.
\<close>

theorem suggest_mapping_first_header_counterexample:
  "headers_with_key unicode_excerpt [ascii ''Plant'', ascii ''PLANT''] (ascii ''plant'')
      = [ascii ''Plant'', ascii ''PLANT'']
   \<and> normalize_text unicode_excerpt (Some (ascii ''plant'')) = ascii ''plant''
   \<and> map_of (suggest_mapping unicode_excerpt (\<lambda>nh cs. []) DEFAULT_SCHEMA [ascii ''Plant'', ascii ''PLANT''])
        (ascii ''is_yeri_kodu'') \<noteq> Some (Some (ascii ''Plant''))"
proof -
  from DEFAULT_SCHEMA_is_yeri obtain meta where m: "(ascii ''is_yeri_kodu'', meta) \<in> set DEFAULT_SCHEMA"
    and s: "synonyms meta = [ascii ''is yeri'', ascii ''i'' @ [351] @ ascii '' yeri'', ascii ''plant'',
                     ascii ''site'', ascii ''plant code'', ascii ''i'' @ [351] @ ascii ''yeri'',
                     ascii ''isyeri'']" by blast
  note p = plant_hit_premises [OF s, of unicode_excerpt]
  have ne: "ascii ''PLANT'' \<noteq> ascii ''Plant''" by (simp add: ascii_def)
  have n: "normalize_text unicode_excerpt (Some (ascii ''plant'')) = ascii ''plant''"
    by (simp add: norm_eval)
  from suggest_mapping_hit [OF DEFAULT_SCHEMA_keys m p(1) p(2) p(3)]
  have "map_of (suggest_mapping unicode_excerpt (\<lambda>nh cs. []) DEFAULT_SCHEMA [ascii ''Plant'', ascii ''PLANT''])
      (ascii ''is_yeri_kodu'') = Some (Some (ascii ''PLANT''))"
    by (simp only: p(4))
  with ne n show ?thesis by (simp add: plant_headers_with_key)
qed

theorem suggest_mapping_exact_precedence_witness:
  "\<exists>h'\<in>set [ascii ''Plnt'', ascii ''SITE''].
      (\<forall>close. map_of (suggest_mapping unicode_excerpt close DEFAULT_SCHEMA [ascii ''Plnt'', ascii ''SITE''])
          (ascii ''is_yeri_kodu'') = Some (Some h'))"
proof -
  from DEFAULT_SCHEMA_is_yeri obtain meta where m: "(ascii ''is_yeri_kodu'', meta) \<in> set DEFAULT_SCHEMA"
    and s: "synonyms meta = [ascii ''is yeri'', ascii ''i'' @ [351] @ ascii '' yeri'', ascii ''plant'',
                     ascii ''site'', ascii ''plant code'', ascii ''i'' @ [351] @ ascii ''yeri'',
                     ascii ''isyeri'']" by blast
  have e: "normalize_text unicode_excerpt (Some (ascii ''site'')) = normalize_text unicode_excerpt (Some (ascii ''SITE''))"
    by (simp add: norm_eval)
  have c: "ascii ''site'' \<in> set (ascii ''is_yeri_kodu'' # synonyms meta)" by (simp add: s)
  have h: "ascii ''SITE'' \<in> set [ascii ''Plnt'', ascii ''SITE'']" by simp
  from suggest_mapping_exact_precedence [OF DEFAULT_SCHEMA_keys m c h e]
  show ?thesis by blast
qed

section \<open>Importing the staged table\<close>

lemma index_of_Some_iff: "(\<exists>i. index_of xs x = Some i) \<longleftrightarrow> x \<in> set xs"
  by (induction xs) auto

lemma index_of_bound: "index_of xs x = Some i \<Longrightarrow> i < length xs \<and> xs ! i = x"
  by (induction xs arbitrary: i) (auto split: if_splits)

lemma getitem_cell_at:
  "c \<in> set (columns t) \<Longrightarrow> getitem t c = Inr (map (cell_at t c) (rows t))"
  using index_of_Some_iff[of "columns t" c] by (auto simp: getitem_def cell_at_def)

lemma zip_map_same: "zip (map f xs) (map g xs) = map (\<lambda>x. (f x, g x)) xs"
  by (induction xs) simp_all

lemma key_pairs_of_rows:
  "c1 \<in> set (columns t) \<Longrightarrow> c2 \<in> set (columns t) \<Longrightarrow>
     key_pairs_of U t c1 c2 = Inr (map (row_key U t c1 c2) (rows t))"
  by (simp add: key_pairs_of_def key_series_def getitem_cell_at zip_map_same row_key_def)

lemma filter_by_mask: "map fst (filter snd (zip xs (map P xs))) = filter P xs"
  by (induction xs) simp_all

lemma loc_mask_filter: "loc_mask t (map P (rows t)) = t\<lparr>rows := filter P (rows t)\<rparr>"
  by (simp add: loc_mask_def filter_by_mask)

lemma length_removed:
  "length xs - length (filter (\<lambda>x. \<not> P x) xs) = length (filter P xs)"
  using sum_length_filter_compl[of P xs] by simp

lemma exact_hit_in_range: "exact_hit d cs = Some h \<Longrightarrow> \<exists>c. map_of d c = Some h"
  by (induction cs) (auto split: option.splits)

lemma first_col_containing_in: "first_col_containing U cols cs = Some c \<Longrightarrow> c \<in> set cols"
  by (induction cols) (auto split: if_splits)

lemma find_col_in_columns:
  assumes "find_col_by_candidates U (Some t) cs = Some c"
  shows "c \<in> set (columns t)"
proof (cases "exact_hit (norm_headers_map U (columns t)) (map (\<lambda>cand. normalize_text U (Some cand)) cs)")
  case None
  with assms show ?thesis by (simp add: find_col_by_candidates_def first_col_containing_in)
next
  case (Some h)
  with assms have "h = c" by (simp add: find_col_by_candidates_def)
  with Some obtain k where "map_of (norm_headers_map U (columns t)) k = Some c"
    using exact_hit_in_range by blast
  then show ?thesis
    using headers_with_key_last[of U "columns t" k]
    by (auto simp: map_of_norm_headers_map split: if_splits)
qed

lemma reindex_rows_update: "reindex (t\<lparr>rows := rs\<rparr>) = reindex t"
  by (rule ext)+ (simp add: reindex_def)

lemma concat_df_kept:
  "concat_df (t\<lparr>rows := rs\<rparr>) s =
     \<lparr>columns = merged_columns t s,
      rows = map (reindex t (merged_columns t s)) rs @ map (reindex s (merged_columns t s)) (rows s)\<rparr>"
  by (simp add: concat_df_def merged_columns_def reindex_rows_update Let_def)

lemma concat_df_rows:
  "concat_df t s =
     \<lparr>columns = merged_columns t s,
      rows = map (reindex t (merged_columns t s)) (rows t) @ map (reindex s (merged_columns t s)) (rows s)\<rparr>"
  by (simp add: concat_df_def merged_columns_def Let_def)

lemma import_no_key_columns:
  assumes "staged_df E = Some S" and "\<not> empty_df S" and "src_df E = Some T" and "\<not> empty_df T"
    and "\<not> (replace_on_keys
          \<and> truthy (find_col_by_candidates U (Some T) (cands E (ascii ''is_yeri_kodu'')))
          \<and> truthy (find_col_by_candidates U (Some T) (cands E (ascii ''masraf_yeri_kodu'')))
          \<and> truthy (find_col_by_candidates U (Some S) (cands E (ascii ''is_yeri_kodu'')))
          \<and> truthy (find_col_by_candidates U (Some S) (cands E (ascii ''masraf_yeri_kodu''))))"
  shows "import_staged_into_system U E replace_on_keys =
     Inr (E\<lparr>src_df := Some (concat_df T S)\<rparr>, 0, length (rows S))"
proof -
  have "import_staged_into_system U E replace_on_keys =
     (if replace_on_keys
          \<and> truthy (find_col_by_candidates U (Some T) (cands E (ascii ''is_yeri_kodu'')))
          \<and> truthy (find_col_by_candidates U (Some T) (cands E (ascii ''masraf_yeri_kodu'')))
          \<and> truthy (find_col_by_candidates U (Some S) (cands E (ascii ''is_yeri_kodu'')))
          \<and> truthy (find_col_by_candidates U (Some S) (cands E (ascii ''masraf_yeri_kodu'')))
      then import_staged_into_system U E replace_on_keys
      else Inr (E\<lparr>src_df := Some (concat_df T S)\<rparr>, 0, length (rows S)))"
    using assms(1-4) by (simp add: import_staged_into_system_def Let_def)
  also have "\<dots> = Inr (E\<lparr>src_df := Some (concat_df T S)\<rparr>, 0, length (rows S))"
    by (rule if_not_P[OF assms(5)])
  finally show ?thesis .
qed

lemma import_with_key_columns:
  assumes "staged_df E = Some S" and "\<not> empty_df S" and "src_df E = Some T" and "\<not> empty_df T"
    and p: "find_col_by_candidates U (Some T) (cands E (ascii ''is_yeri_kodu'')) = Some p" "p \<noteq> []"
    and m: "find_col_by_candidates U (Some T) (cands E (ascii ''masraf_yeri_kodu'')) = Some m" "m \<noteq> []"
    and p': "find_col_by_candidates U (Some S) (cands E (ascii ''is_yeri_kodu'')) = Some p'" "p' \<noteq> []"
    and m': "find_col_by_candidates U (Some S) (cands E (ascii ''masraf_yeri_kodu'')) = Some m'" "m' \<noteq> []"
  shows "import_staged_into_system U E True =
     Inr (E\<lparr>src_df := Some (concat_df
              (T\<lparr>rows := filter (\<lambda>r. row_key U T p m r \<notin> row_key U S p' m' ` set (rows S)) (rows T)\<rparr>) S)\<rparr>,
          length (filter (\<lambda>r. row_key U T p m r \<in> row_key U S p' m' ` set (rows S)) (rows T)),
          length (rows S))"
proof -
  have kS: "key_pairs_of U S p' m' = Inr (map (row_key U S p' m') (rows S))"
    using p'(1) m'(1) by (intro key_pairs_of_rows find_col_in_columns)
  have kT: "key_pairs_of U T p m = Inr (map (row_key U T p m) (rows T))"
    using p(1) m(1) by (intro key_pairs_of_rows find_col_in_columns)
  let ?K = "map (row_key U S p' m') (rows S)"
  have msk: "map (\<lambda>p. p \<notin> set ?K) (map (row_key U T p m) (rows T))
      = map (\<lambda>r. row_key U T p m r \<notin> row_key U S p' m' ` set (rows S)) (rows T)"
    by simp
  show ?thesis
    using assms(1-4)
    by (simp add: import_staged_into_system_def Let_def p m p' m' kS kT msk loc_mask_filter
        length_removed del: set_map map_map)
qed

text \<open>The definitions that evaluate a key on a literal.\<close>

lemmas key_eval = key_of_cell_def casefold_def strip_def isspace_def lower1_def ascii_def

lemma cands_is_yeri_kodu:
  "schema_of E = DEFAULT_SCHEMA \<Longrightarrow>
   map (\<lambda>cand. normalize_text U (Some cand)) (cands E (ascii ''is_yeri_kodu'')) =
     [ascii ''is yeri kodu'', ascii ''is yeri'', ascii ''is yeri'', ascii ''plant'', ascii ''site'',
      ascii ''plant code'', ascii ''isyeri'', ascii ''isyeri'', ascii ''is yeri kodu'']"
  by (simp add: cands_def DEFAULT_SCHEMA_def FALLBACK_LABELS_def) (simp add: norm_eval)

lemma cands_masraf_yeri_kodu:
  "schema_of E = DEFAULT_SCHEMA \<Longrightarrow>
   map (\<lambda>cand. normalize_text U (Some cand)) (cands E (ascii ''masraf_yeri_kodu'')) =
     [ascii ''masraf yeri kodu'', ascii ''masraf yeri'', ascii ''cost center'', ascii ''cost centre'',
      ascii ''cc'', ascii ''masraf kodu'', ascii ''masraf yeri kodu'']"
  by (simp add: cands_def DEFAULT_SCHEMA_def FALLBACK_LABELS_def) (simp add: norm_eval)

lemma norm_column_names:
  "normalize_text U (Some (ascii ''Plant'')) = ascii ''plant''"
  "normalize_text U (Some (ascii ''CC'')) = ascii ''cc''"
  "normalize_text U (Some (ascii ''AMOR'')) = ascii ''amor''"
  "normalize_text U (Some (ascii ''site'')) = ascii ''site''"
  "normalize_text U (Some (ascii ''cost center'')) = ascii ''cost center''"
  "normalize_text U (Some (ascii ''a'')) = ascii ''a''"
  by (simp_all add: norm_eval)

lemma find_system_tab:
  "schema_of E = DEFAULT_SCHEMA \<Longrightarrow>
     find_col_by_candidates U (Some system_tab) (cands E (ascii ''is_yeri_kodu'')) = Some (ascii ''Plant'')"
  "schema_of E = DEFAULT_SCHEMA \<Longrightarrow>
     find_col_by_candidates U (Some system_tab) (cands E (ascii ''masraf_yeri_kodu'')) = Some (ascii ''CC'')"
  by (simp_all add: find_col_by_candidates_def cands_is_yeri_kodu cands_masraf_yeri_kodu system_tab_def
      norm_headers_map_def norm_column_names ascii_eq_iff)


lemma find_staged_tab:
  "schema_of E = DEFAULT_SCHEMA \<Longrightarrow>
     find_col_by_candidates U (Some staged_tab) (cands E (ascii ''is_yeri_kodu'')) = Some (ascii ''Plant'')"
  "schema_of E = DEFAULT_SCHEMA \<Longrightarrow>
     find_col_by_candidates U (Some staged_tab) (cands E (ascii ''masraf_yeri_kodu'')) = Some (ascii ''CC'')"
  by (simp_all add: find_col_by_candidates_def cands_is_yeri_kodu cands_masraf_yeri_kodu staged_tab_def
      norm_headers_map_def norm_column_names ascii_eq_iff)

lemma find_site_tab:
  "schema_of E = DEFAULT_SCHEMA \<Longrightarrow>
     find_col_by_candidates U (Some site_tab) (cands E (ascii ''is_yeri_kodu'')) = Some (ascii ''site'')"
  "schema_of E = DEFAULT_SCHEMA \<Longrightarrow>
     find_col_by_candidates U (Some site_tab) (cands E (ascii ''masraf_yeri_kodu'')) = Some (ascii ''cost center'')"
  by (simp_all add: find_col_by_candidates_def cands_is_yeri_kodu cands_masraf_yeri_kodu site_tab_def
      norm_headers_map_def norm_column_names ascii_eq_iff)

lemma cands_plain:
  "schema_of E = DEFAULT_SCHEMA \<Longrightarrow>
     list_ex (\<lambda>c. substring (normalize_text U (Some c)) (ascii ''a'')) (cands E (ascii ''is_yeri_kodu'')) = False"
  by (simp add: cands_def DEFAULT_SCHEMA_def FALLBACK_LABELS_def) (simp add: norm_eval)

lemma find_plain_tab:
  "schema_of E = DEFAULT_SCHEMA \<Longrightarrow>
     find_col_by_candidates U (Some (plain_tab v)) (cands E (ascii ''is_yeri_kodu'')) = None"
  by (simp add: find_col_by_candidates_def cands_is_yeri_kodu plain_tab_def
      norm_headers_map_def norm_column_names cands_plain ascii_eq_iff)

text \<open>
  Claim C1. \<open>import_staged_into_system\<close> (with \<open>replace_on_keys\<close> at its default)
  returns \<open>(0, 0)\<close> and leaves the engine as it is when the staged table is absent or
  empty; makes the staged table the system table and returns \<open>(0, number of staged rows)\<close>
  when the system table is absent or empty; when the plant and cost-centre columns are found
  on both tables, removes the system rows whose trimmed, case-folded key pair is the key pair
  of a staged row, appends every staged row to the rows that remain (on the union of the
  columns) and returns the number of removed rows and the number of staged rows; and when a
  key column is not found on either side removes nothing and appends every staged row. No
  case raises.
\<close>

theorem import_staged_into_system_cases:
  "(none_or_empty (staged_df E) \<longrightarrow> import_staged_into_system U E True = Inr (E, 0, 0))
   \<and> (\<forall>S. staged_df E = Some S \<and> \<not> empty_df S \<and> none_or_empty (src_df E)
        \<longrightarrow> import_staged_into_system U E True = Inr (E\<lparr>src_df := Some S\<rparr>, 0, length (rows S)))
   \<and> (\<forall>S T p m p' m'.
          staged_df E = Some S \<and> \<not> empty_df S \<and> src_df E = Some T \<and> \<not> empty_df T
          \<and> find_col_by_candidates U (Some T) (cands E (ascii ''is_yeri_kodu'')) = Some p \<and> p \<noteq> []
          \<and> find_col_by_candidates U (Some T) (cands E (ascii ''masraf_yeri_kodu'')) = Some m \<and> m \<noteq> []
          \<and> find_col_by_candidates U (Some S) (cands E (ascii ''is_yeri_kodu'')) = Some p' \<and> p' \<noteq> []
          \<and> find_col_by_candidates U (Some S) (cands E (ascii ''masraf_yeri_kodu'')) = Some m' \<and> m' \<noteq> []
        \<longrightarrow> import_staged_into_system U E True =
             Inr (E\<lparr>src_df := Some
                    \<lparr>columns = merged_columns T S,
                     rows = map (reindex T (merged_columns T S))
                              (filter (\<lambda>r. row_key U T p m r \<notin> row_key U S p' m' ` set (rows S)) (rows T))
                            @ map (reindex S (merged_columns T S)) (rows S)\<rparr>\<rparr>,
                  length (filter (\<lambda>r. row_key U T p m r \<in> row_key U S p' m' ` set (rows S)) (rows T)),
                  length (rows S)))
   \<and> (\<forall>S T.
          staged_df E = Some S \<and> \<not> empty_df S \<and> src_df E = Some T \<and> \<not> empty_df T
          \<and> \<not> (truthy (find_col_by_candidates U (Some T) (cands E (ascii ''is_yeri_kodu'')))
               \<and> truthy (find_col_by_candidates U (Some T) (cands E (ascii ''masraf_yeri_kodu'')))
               \<and> truthy (find_col_by_candidates U (Some S) (cands E (ascii ''is_yeri_kodu'')))
               \<and> truthy (find_col_by_candidates U (Some S) (cands E (ascii ''masraf_yeri_kodu''))))
        \<longrightarrow> import_staged_into_system U E True =
             Inr (E\<lparr>src_df := Some
                    \<lparr>columns = merged_columns T S,
                     rows = map (reindex T (merged_columns T S)) (rows T)
                            @ map (reindex S (merged_columns T S)) (rows S)\<rparr>\<rparr>,
                  0, length (rows S)))"
proof (intro conjI allI impI)
  assume "none_or_empty (staged_df E)"
  then show "import_staged_into_system U E True = Inr (E, 0, 0)"
    by (simp add: import_staged_into_system_def)
next
  fix S
  assume "staged_df E = Some S \<and> \<not> empty_df S \<and> none_or_empty (src_df E)"
  then show "import_staged_into_system U E True = Inr (E\<lparr>src_df := Some S\<rparr>, 0, length (rows S))"
    by (simp add: import_staged_into_system_def)
next
  fix S T p m p' m'
  assume a: "staged_df E = Some S \<and> \<not> empty_df S \<and> src_df E = Some T \<and> \<not> empty_df T
          \<and> find_col_by_candidates U (Some T) (cands E (ascii ''is_yeri_kodu'')) = Some p \<and> p \<noteq> []
          \<and> find_col_by_candidates U (Some T) (cands E (ascii ''masraf_yeri_kodu'')) = Some m \<and> m \<noteq> []
          \<and> find_col_by_candidates U (Some S) (cands E (ascii ''is_yeri_kodu'')) = Some p' \<and> p' \<noteq> []
          \<and> find_col_by_candidates U (Some S) (cands E (ascii ''masraf_yeri_kodu'')) = Some m' \<and> m' \<noteq> []"
  have "import_staged_into_system U E True =
     Inr (E\<lparr>src_df := Some (concat_df
              (T\<lparr>rows := filter (\<lambda>r. row_key U T p m r \<notin> row_key U S p' m' ` set (rows S)) (rows T)\<rparr>) S)\<rparr>,
          length (filter (\<lambda>r. row_key U T p m r \<in> row_key U S p' m' ` set (rows S)) (rows T)),
          length (rows S))"
    by (rule import_with_key_columns) (use a in blast)+
  then show "import_staged_into_system U E True =
             Inr (E\<lparr>src_df := Some
                    \<lparr>columns = merged_columns T S,
                     rows = map (reindex T (merged_columns T S))
                              (filter (\<lambda>r. row_key U T p m r \<notin> row_key U S p' m' ` set (rows S)) (rows T))
                            @ map (reindex S (merged_columns T S)) (rows S)\<rparr>\<rparr>,
                  length (filter (\<lambda>r. row_key U T p m r \<in> row_key U S p' m' ` set (rows S)) (rows T)),
                  length (rows S))"
    by (simp only: concat_df_kept)
next
  fix S T
  assume a: "staged_df E = Some S \<and> \<not> empty_df S \<and> src_df E = Some T \<and> \<not> empty_df T
          \<and> \<not> (truthy (find_col_by_candidates U (Some T) (cands E (ascii ''is_yeri_kodu'')))
               \<and> truthy (find_col_by_candidates U (Some T) (cands E (ascii ''masraf_yeri_kodu'')))
               \<and> truthy (find_col_by_candidates U (Some S) (cands E (ascii ''is_yeri_kodu'')))
               \<and> truthy (find_col_by_candidates U (Some S) (cands E (ascii ''masraf_yeri_kodu''))))"
  then have "import_staged_into_system U E True = Inr (E\<lparr>src_df := Some (concat_df T S)\<rparr>, 0, length (rows S))"
    by (intro import_no_key_columns) simp_all
  then show "import_staged_into_system U E True =
             Inr (E\<lparr>src_df := Some
                    \<lparr>columns = merged_columns T S,
                     rows = map (reindex T (merged_columns T S)) (rows T)
                            @ map (reindex S (merged_columns T S)) (rows S)\<rparr>\<rparr>,
                  0, length (rows S))"
    by (simp only: concat_df_rows[symmetric])
qed

lemma engine0_simps:
  "schema_of (engine0 a b) = DEFAULT_SCHEMA" "src_df (engine0 a b) = a" "staged_df (engine0 a b) = b"
  "(engine0 a b)\<lparr>src_df := c\<rparr> = engine0 c b"
  by (simp_all add: engine0_def)

lemma example_tabs_nonempty:
  "\<not> empty_df system_tab" "\<not> empty_df staged_tab" "\<not> empty_df site_tab" "\<not> empty_df (plain_tab v)"
  by (simp_all add: empty_df_def system_tab_def staged_tab_def site_tab_def plain_tab_def)

theorem import_staged_into_system_cases_witness:
  "import_staged_into_system unicode_excerpt (engine0 (Some system_tab) None) True
      = Inr (engine0 (Some system_tab) None, 0, 0)
   \<and> import_staged_into_system unicode_excerpt (engine0 None (Some staged_tab)) True
      = Inr (engine0 (Some staged_tab) (Some staged_tab), 0, 2)
   \<and> import_staged_into_system unicode_excerpt (engine0 (Some system_tab) (Some staged_tab)) True
      = Inr (engine0
              (Some \<lparr>columns = [ascii ''Plant'', ascii ''CC'', ascii ''AMOR''],
                     rows = [[Str (ascii ''P2''), Str (ascii ''C2''), Str (ascii ''50'')],
                             [Str (ascii '' p1 ''), Str (ascii ''c1''), NaN],
                             [Str (ascii ''P3''), Str (ascii ''C3''), NaN]]\<rparr>)
              (Some staged_tab), 1, 2)
   \<and> import_staged_into_system unicode_excerpt
        (engine0 (Some (plain_tab (ascii ''x''))) (Some (plain_tab (ascii ''y'')))) True
      = Inr (engine0
              (Some \<lparr>columns = [ascii ''a''], rows = [[Str (ascii ''x'')], [Str (ascii ''y'')]]\<rparr>)
              (Some (plain_tab (ascii ''y''))), 0, 1)"
proof (intro conjI)
  note A = import_staged_into_system_cases
    [of "engine0 (Some system_tab) None" unicode_excerpt, THEN conjunct1, rule_format]
  show "import_staged_into_system unicode_excerpt (engine0 (Some system_tab) None) True
      = Inr (engine0 (Some system_tab) None, 0, 0)"
    by (rule A) (simp add: engine0_simps)
next
  note B = import_staged_into_system_cases
    [of "engine0 None (Some staged_tab)" unicode_excerpt, THEN conjunct2, THEN conjunct1, rule_format,
      of staged_tab]
  have "import_staged_into_system unicode_excerpt (engine0 None (Some staged_tab)) True
      = Inr ((engine0 None (Some staged_tab))\<lparr>src_df := Some staged_tab\<rparr>, 0, length (rows staged_tab))"
    by (rule B) (simp add: engine0_simps example_tabs_nonempty)
  then show "import_staged_into_system unicode_excerpt (engine0 None (Some staged_tab)) True
      = Inr (engine0 (Some staged_tab) (Some staged_tab), 0, 2)"
    by (simp add: engine0_simps) (simp add: staged_tab_def)
next
  let ?E = "engine0 (Some system_tab) (Some staged_tab)"
  note C = import_staged_into_system_cases
    [of ?E unicode_excerpt, THEN conjunct2, THEN conjunct2, THEN conjunct1, rule_format,
      of staged_tab system_tab "ascii ''Plant''" "ascii ''CC''" "ascii ''Plant''" "ascii ''CC''"]
  have ne: "ascii ''Plant'' \<noteq> []" "ascii ''CC'' \<noteq> []" by (simp_all add: ascii_def)
  have "import_staged_into_system unicode_excerpt ?E True =
     Inr (?E\<lparr>src_df := Some
            \<lparr>columns = merged_columns system_tab staged_tab,
             rows = map (reindex system_tab (merged_columns system_tab staged_tab))
                      (filter (\<lambda>r. row_key unicode_excerpt system_tab (ascii ''Plant'') (ascii ''CC'') r
                           \<notin> row_key unicode_excerpt staged_tab (ascii ''Plant'') (ascii ''CC'') ` set (rows staged_tab))
                         (rows system_tab))
                    @ map (reindex staged_tab (merged_columns system_tab staged_tab)) (rows staged_tab)\<rparr>\<rparr>,
          length (filter (\<lambda>r. row_key unicode_excerpt system_tab (ascii ''Plant'') (ascii ''CC'') r
                           \<in> row_key unicode_excerpt staged_tab (ascii ''Plant'') (ascii ''CC'') ` set (rows staged_tab))
                         (rows system_tab)),
          length (rows staged_tab))"
    by (rule C) (simp add: engine0_simps example_tabs_nonempty find_system_tab find_staged_tab ne)
  moreover have "merged_columns system_tab staged_tab = [ascii ''Plant'', ascii ''CC'', ascii ''AMOR'']"
    by (simp add: merged_columns_def system_tab_def staged_tab_def)
  moreover have "map (row_key unicode_excerpt staged_tab (ascii ''Plant'') (ascii ''CC'')) (rows staged_tab)
      = [(ascii ''p1'', ascii ''c1''), (ascii ''p3'', ascii ''c3'')]"
    by (simp add: staged_tab_def row_key_def cell_at_def key_eval)
  moreover have "map (row_key unicode_excerpt system_tab (ascii ''Plant'') (ascii ''CC'')) (rows system_tab)
      = [(ascii ''p1'', ascii ''c1''), (ascii ''p2'', ascii ''c2'')]"
    by (simp add: system_tab_def row_key_def cell_at_def key_eval)
  ultimately show "import_staged_into_system unicode_excerpt ?E True
      = Inr (engine0
              (Some \<lparr>columns = [ascii ''Plant'', ascii ''CC'', ascii ''AMOR''],
                     rows = [[Str (ascii ''P2''), Str (ascii ''C2''), Str (ascii ''50'')],
                             [Str (ascii '' p1 ''), Str (ascii ''c1''), NaN],
                             [Str (ascii ''P3''), Str (ascii ''C3''), NaN]]\<rparr>)
              (Some staged_tab), 1, 2)"
    by (simp add: engine0_simps system_tab_def staged_tab_def reindex_def ascii_def)
next
  let ?E = "engine0 (Some (plain_tab (ascii ''x''))) (Some (plain_tab (ascii ''y'')))"
  note D = import_staged_into_system_cases
    [of ?E unicode_excerpt, THEN conjunct2, THEN conjunct2, THEN conjunct2, rule_format,
      of "plain_tab (ascii ''y'')" "plain_tab (ascii ''x'')"]
  have "import_staged_into_system unicode_excerpt ?E True =
     Inr (?E\<lparr>src_df := Some
            \<lparr>columns = merged_columns (plain_tab (ascii ''x'')) (plain_tab (ascii ''y'')),
             rows = map (reindex (plain_tab (ascii ''x'')) (merged_columns (plain_tab (ascii ''x'')) (plain_tab (ascii ''y''))))
                       (rows (plain_tab (ascii ''x'')))
                    @ map (reindex (plain_tab (ascii ''y'')) (merged_columns (plain_tab (ascii ''x'')) (plain_tab (ascii ''y''))))
                       (rows (plain_tab (ascii ''y'')))\<rparr>\<rparr>,
          0, length (rows (plain_tab (ascii ''y''))))"
    by (rule D) (simp add: engine0_simps example_tabs_nonempty find_plain_tab)
  then show "import_staged_into_system unicode_excerpt ?E True
      = Inr (engine0
              (Some \<lparr>columns = [ascii ''a''], rows = [[Str (ascii ''x'')], [Str (ascii ''y'')]]\<rparr>)
              (Some (plain_tab (ascii ''y''))), 0, 1)"
    by (simp add: engine0_simps merged_columns_def reindex_def plain_tab_def)
qed

section \<open>Importing the same staged table twice\<close>

lemma find_col_columns:
  "columns a = columns b \<Longrightarrow> find_col_by_candidates U (Some a) cs = find_col_by_candidates U (Some b) cs"
  by (simp add: find_col_by_candidates_def split: option.splits)

lemma index_of_nth: "distinct xs \<Longrightarrow> i < length xs \<Longrightarrow> index_of xs (xs ! i) = Some i"
proof (induction xs arbitrary: i)
  case Nil
  then show ?case by simp
next
  case (Cons x xs)
  show ?case
  proof (cases i)
    case 0
    then show ?thesis by simp
  next
    case (Suc j)
    with Cons.prems have "xs ! j \<in> set xs" and "x \<notin> set xs" by simp_all
    then have "x \<noteq> xs ! j" by blast
    with Suc Cons show ?thesis by simp
  qed
qed

lemma reindex_same:
  assumes "distinct (columns t)" and "length x = length (columns t)"
  shows "reindex t (columns t) x = x"
proof (rule nth_equalityI)
  show "length (reindex t (columns t) x) = length x" using assms(2) by (simp add: reindex_def)
next
  fix i assume "i < length (reindex t (columns t) x)"
  then have i: "i < length (columns t)" by (simp add: reindex_def)
  from assms(1) i have "index_of (columns t) (columns t ! i) = Some i" by (rule index_of_nth)
  with i show "reindex t (columns t) x ! i = x ! i" by (simp add: reindex_def)
qed

lemma cell_at_reindex:
  assumes "c \<in> set cols" and "columns t' = cols"
  shows "cell_at t' c (reindex t cols r) = cell_at t c r"
proof -
  from assms(1) obtain i where i: "index_of cols c = Some i"
    using index_of_Some_iff[of cols c] by blast
  then have "i < length cols" and "cols ! i = c" using index_of_bound by fastforce+
  then have "reindex t cols r ! i = cell_at t c r" by (simp add: reindex_def cell_at_def)
  with i assms(2) show ?thesis by (simp add: cell_at_def)
qed

lemma row_key_reindex:
  assumes "c1 \<in> set cols" and "c2 \<in> set cols" and "columns t' = cols"
  shows "row_key U t' c1 c2 (reindex t cols r) = row_key U t c1 c2 r"
  by (simp add: row_key_def cell_at_reindex[OF assms(1,3)] cell_at_reindex[OF assms(2,3)])

lemma merged_columns_set: "set (merged_columns a b) = set (columns a) \<union> set (columns b)"
  by (auto simp: merged_columns_def)

lemma merged_columns_distinct:
  "distinct (columns a) \<Longrightarrow> distinct (columns b) \<Longrightarrow> distinct (merged_columns a b)"
  by (auto simp: merged_columns_def)

lemma merged_columns_absorb:
  "set (columns b) \<subseteq> set (columns a) \<Longrightarrow> merged_columns a b = columns a"
  by (auto simp: merged_columns_def filter_empty_conv)

lemma length_reindex: "length (reindex t cols r) = length cols"
  by (simp add: reindex_def)

lemma wf_table_rows: "wf_table t \<Longrightarrow> r \<in> set (rows t) \<Longrightarrow> length r = length (columns t)"
  by (simp add: wf_table_def list_all_iff)

lemma wf_table_distinct: "wf_table t \<Longrightarrow> distinct (columns t)"
  by (simp add: wf_table_def)

lemma import_twice_fresh:
  assumes S: "staged_df E = Some S" "\<not> empty_df S" "wf_table S"
    and p: "find_col_by_candidates U (Some S) (cands E (ascii ''is_yeri_kodu'')) = Some p" "p \<noteq> []"
    and m: "find_col_by_candidates U (Some S) (cands E (ascii ''masraf_yeri_kodu'')) = Some m" "m \<noteq> []"
    and T: "none_or_empty (src_df E)"
  shows "import_staged_into_system U E True = Inr (E\<lparr>src_df := Some S\<rparr>, 0, length (rows S))
     \<and> import_staged_into_system U (E\<lparr>src_df := Some S\<rparr>) True
         = Inr (E\<lparr>src_df := Some S\<rparr>, length (rows S), length (rows S))"
proof
  show "import_staged_into_system U E True = Inr (E\<lparr>src_df := Some S\<rparr>, 0, length (rows S))"
    using S(1,2) T by (simp add: import_staged_into_system_def)
next
  let ?E1 = "E\<lparr>src_df := Some S\<rparr>"
  let ?K = "row_key U S p m ` set (rows S)"
  have c: "cands ?E1 = cands E" by (rule ext) (simp add: cands_def)
  have "import_staged_into_system U ?E1 True =
     Inr (?E1\<lparr>src_df := Some (concat_df
              (S\<lparr>rows := filter (\<lambda>r. row_key U S p m r \<notin> ?K) (rows S)\<rparr>) S)\<rparr>,
          length (filter (\<lambda>r. row_key U S p m r \<in> ?K) (rows S)),
          length (rows S))"
    by (rule import_with_key_columns) (simp_all add: S c p m)
  moreover have "filter (\<lambda>r. row_key U S p m r \<notin> ?K) (rows S) = []"
    by (simp add: filter_empty_conv)
  moreover have "filter (\<lambda>r. row_key U S p m r \<in> ?K) (rows S) = rows S"
    by (simp add: filter_id_conv)
  moreover have "concat_df (S\<lparr>rows := []\<rparr>) S = S"
  proof -
    have "map (reindex S (columns S)) (rows S) = rows S"
      by (rule map_idI) (simp add: reindex_same wf_table_rows[OF S(3)] wf_table_distinct[OF S(3)])
    then show ?thesis
      by (simp add: concat_df_kept merged_columns_absorb)
  qed
  ultimately show "import_staged_into_system U ?E1 True = Inr (?E1, length (rows S), length (rows S))"
    by simp
qed

lemma import_twice_merge:
  assumes S: "staged_df E = Some S" "\<not> empty_df S" "wf_table S"
    and T: "src_df E = Some T" "\<not> empty_df T" "wf_table T"
    and pS: "find_col_by_candidates U (Some S) (cands E (ascii ''is_yeri_kodu'')) = Some p" "p \<noteq> []"
    and mS: "find_col_by_candidates U (Some S) (cands E (ascii ''masraf_yeri_kodu'')) = Some m" "m \<noteq> []"
    and pT: "find_col_by_candidates U (Some T) (cands E (ascii ''is_yeri_kodu'')) = Some p"
    and mT: "find_col_by_candidates U (Some T) (cands E (ascii ''masraf_yeri_kodu'')) = Some m"
    and pM: "find_col_by_candidates U (Some (concat_df T S)) (cands E (ascii ''is_yeri_kodu'')) = Some p"
    and mM: "find_col_by_candidates U (Some (concat_df T S)) (cands E (ascii ''masraf_yeri_kodu'')) = Some m"
  shows "\<exists>T1 n. import_staged_into_system U E True = Inr (E\<lparr>src_df := Some T1\<rparr>, n, length (rows S))
     \<and> import_staged_into_system U (E\<lparr>src_df := Some T1\<rparr>) True
         = Inr (E\<lparr>src_df := Some T1\<rparr>, length (rows S), length (rows S))"
proof -
  let ?K = "row_key U S p m ` set (rows S)"
  let ?MC = "merged_columns T S"
  let ?kept = "filter (\<lambda>r. row_key U T p m r \<notin> ?K) (rows T)"
  let ?A = "map (reindex T ?MC) ?kept"
  let ?B = "map (reindex S ?MC) (rows S)"
  let ?T1 = "\<lparr>columns = ?MC, rows = ?A @ ?B\<rparr> :: cell table"
  let ?E1 = "E\<lparr>src_df := Some ?T1\<rparr>"
  have first: "import_staged_into_system U E True =
      Inr (?E1, length (filter (\<lambda>r. row_key U T p m r \<in> ?K) (rows T)), length (rows S))"
    using import_with_key_columns[OF S(1,2) T(1,2) pT pS(2) mT mS(2) pS mS]
    by (simp only: concat_df_kept)
  have c: "cands ?E1 = cands E" by (rule ext) (simp add: cands_def)
  have pcT: "p \<in> set (columns T)" and mcT: "m \<in> set (columns T)"
    using pT mT by (auto dest: find_col_in_columns)
  have pcS: "p \<in> set (columns S)" and mcS: "m \<in> set (columns S)"
    using pS(1) mS(1) by (auto dest: find_col_in_columns)
  have pMC: "p \<in> set ?MC" and mMC: "m \<in> set ?MC"
    using pcT mcT by (simp_all add: merged_columns_set)
  have cols1: "columns ?T1 = ?MC" by simp
  have ne1: "\<not> empty_df ?T1"
    using S(2) T(2) by (simp add: empty_df_def merged_columns_def)
  have f1: "find_col_by_candidates U (Some ?T1) (cands E (ascii ''is_yeri_kodu'')) = Some p"
    using pM find_col_columns[of ?T1 "concat_df T S"] by (simp add: concat_df_rows)
  have f2: "find_col_by_candidates U (Some ?T1) (cands E (ascii ''masraf_yeri_kodu'')) = Some m"
    using mM find_col_columns[of ?T1 "concat_df T S"] by (simp add: concat_df_rows)
  have keyA: "\<And>r. row_key U ?T1 p m (reindex T ?MC r) = row_key U T p m r"
    by (rule row_key_reindex[OF pMC mMC cols1])
  have keyB: "\<And>r. row_key U ?T1 p m (reindex S ?MC r) = row_key U S p m r"
    by (rule row_key_reindex[OF pMC mMC cols1])
  have keepA: "filter (\<lambda>r. row_key U ?T1 p m r \<notin> ?K) ?A = ?A"
    by (simp add: filter_id_conv keyA del: cols1)
  have keepB: "filter (\<lambda>r. row_key U ?T1 p m r \<notin> ?K) ?B = []"
    by (simp add: filter_empty_conv keyB)
  have dropA: "filter (\<lambda>r. row_key U ?T1 p m r \<in> ?K) ?A = []"
    by (simp add: filter_empty_conv keyA)
  have dropB: "filter (\<lambda>r. row_key U ?T1 p m r \<in> ?K) ?B = ?B"
    by (simp add: filter_id_conv keyB)
  have kept1: "filter (\<lambda>r. row_key U ?T1 p m r \<notin> ?K) (rows ?T1) = ?A"
    using keepA keepB by simp
  have removed1: "length (filter (\<lambda>r. row_key U ?T1 p m r \<in> ?K) (rows ?T1)) = length (rows S)"
    using dropA dropB by simp
  have second: "import_staged_into_system U ?E1 True =
     Inr (?E1\<lparr>src_df := Some (concat_df
              (?T1\<lparr>rows := filter (\<lambda>r. row_key U ?T1 p m r \<notin> ?K) (rows ?T1)\<rparr>) S)\<rparr>,
          length (filter (\<lambda>r. row_key U ?T1 p m r \<in> ?K) (rows ?T1)),
          length (rows S))"
    by (rule import_with_key_columns[where S = S and T = ?T1])
       (simp_all add: S ne1 c f1 f2 pS mS del: cols1)
  let ?X = "\<lparr>columns = ?MC, rows = ?A\<rparr> :: cell table"
  have X: "?T1\<lparr>rows := ?A\<rparr> = ?X" by simp
  have absorb: "merged_columns ?X S = ?MC"
    using merged_columns_absorb[of S ?X] by (simp add: merged_columns_set)
  have d: "distinct ?MC"
    using T(3) S(3) by (intro merged_columns_distinct wf_table_distinct)
  have "map (reindex ?X ?MC) ?A = ?A"
    by (rule map_idI) (use reindex_same[of ?X] d in \<open>auto simp: length_reindex\<close>)
  then have "concat_df ?X S = ?T1"
    by (simp only: concat_df_rows absorb table.simps)
  then have "concat_df (?T1\<lparr>rows := ?A\<rparr>) S = ?T1"
    by (simp only: X)
  with second kept1 removed1
  have "import_staged_into_system U ?E1 True = Inr (?E1\<lparr>src_df := Some ?T1\<rparr>, length (rows S), length (rows S))"
    by (simp only:)
  then have "import_staged_into_system U ?E1 True = Inr (?E1, length (rows S), length (rows S))"
    by simp
  with first show ?thesis by blast
qed

lemma example_tabs_wf: "wf_table system_tab" "wf_table staged_tab" "wf_table site_tab"
  by (simp_all add: wf_table_def system_tab_def staged_tab_def site_tab_def ascii_def)

lemma find_system_staged:
  assumes "schema_of E = DEFAULT_SCHEMA"
  shows "find_col_by_candidates U (Some (concat_df system_tab staged_tab)) (cands E (ascii ''is_yeri_kodu''))
           = Some (ascii ''Plant'')"
    and "find_col_by_candidates U (Some (concat_df system_tab staged_tab)) (cands E (ascii ''masraf_yeri_kodu''))
           = Some (ascii ''CC'')"
proof -
  have "columns (concat_df system_tab staged_tab) = columns system_tab"
    by (simp add: concat_df_rows merged_columns_def system_tab_def staged_tab_def)
  from find_col_columns[OF this] find_system_tab[OF assms]
  show "find_col_by_candidates U (Some (concat_df system_tab staged_tab)) (cands E (ascii ''is_yeri_kodu''))
           = Some (ascii ''Plant'')"
    and "find_col_by_candidates U (Some (concat_df system_tab staged_tab)) (cands E (ascii ''masraf_yeri_kodu''))
           = Some (ascii ''CC'')"
    by simp_all
qed

lemma import_system_staged:
  "import_staged_into_system unicode_excerpt (engine0 (Some system_tab) (Some staged_tab)) True
      = Inr (engine0
              (Some \<lparr>columns = [ascii ''Plant'', ascii ''CC'', ascii ''AMOR''],
                     rows = [[Str (ascii ''P2''), Str (ascii ''C2''), Str (ascii ''50'')],
                             [Str (ascii '' p1 ''), Str (ascii ''c1''), NaN],
                             [Str (ascii ''P3''), Str (ascii ''C3''), NaN]]\<rparr>)
              (Some staged_tab), 1, 2)"
proof -
  let ?E = "engine0 (Some system_tab) (Some staged_tab)"
  have ne: "ascii ''Plant'' \<noteq> []" "ascii ''CC'' \<noteq> []" by (simp_all add: ascii_def)
  have "import_staged_into_system unicode_excerpt ?E True =
     Inr (?E\<lparr>src_df := Some (concat_df
            (system_tab\<lparr>rows := filter (\<lambda>r. row_key unicode_excerpt system_tab (ascii ''Plant'') (ascii ''CC'') r
                           \<notin> row_key unicode_excerpt staged_tab (ascii ''Plant'') (ascii ''CC'') ` set (rows staged_tab))
                         (rows system_tab)\<rparr>) staged_tab)\<rparr>,
          length (filter (\<lambda>r. row_key unicode_excerpt system_tab (ascii ''Plant'') (ascii ''CC'') r
                           \<in> row_key unicode_excerpt staged_tab (ascii ''Plant'') (ascii ''CC'') ` set (rows staged_tab))
                         (rows system_tab)),
          length (rows staged_tab))"
    by (rule import_with_key_columns)
       (simp_all add: engine0_simps example_tabs_nonempty find_system_tab find_staged_tab ne)
  moreover have "map (row_key unicode_excerpt staged_tab (ascii ''Plant'') (ascii ''CC'')) (rows staged_tab)
      = [(ascii ''p1'', ascii ''c1''), (ascii ''p3'', ascii ''c3'')]"
    by (simp add: staged_tab_def row_key_def cell_at_def key_eval)
  moreover have "map (row_key unicode_excerpt system_tab (ascii ''Plant'') (ascii ''CC'')) (rows system_tab)
      = [(ascii ''p1'', ascii ''c1''), (ascii ''p2'', ascii ''c2'')]"
    by (simp add: system_tab_def row_key_def cell_at_def key_eval)
  ultimately show ?thesis
    by (simp add: engine0_simps concat_df_kept merged_columns_def)
       (simp add: system_tab_def staged_tab_def reindex_def ascii_def)
qed

text \<open>
  Claim C5, as the code has it. Let the staged table be non-empty and well formed, with its
  plant and cost-centre columns found, and let the system table be absent or empty, or else
  well formed with the same two columns found on it and on the merged table. Then a second
  import of the same staged table leaves the system table of the first import as it is: it
  removes as many rows as the staged table has (the rows the first import appended) and
  appends them again.
\<close>

theorem import_twice_same_key_columns:
  assumes "staged_df E = Some S" and "\<not> empty_df S" and "wf_table S"
    and "find_col_by_candidates U (Some S) (cands E (ascii ''is_yeri_kodu'')) = Some p" and "p \<noteq> []"
    and "find_col_by_candidates U (Some S) (cands E (ascii ''masraf_yeri_kodu'')) = Some m" and "m \<noteq> []"
    and "none_or_empty (src_df E)
         \<or> (\<exists>T. src_df E = Some T \<and> \<not> empty_df T \<and> wf_table T
               \<and> find_col_by_candidates U (Some T) (cands E (ascii ''is_yeri_kodu'')) = Some p
               \<and> find_col_by_candidates U (Some T) (cands E (ascii ''masraf_yeri_kodu'')) = Some m
               \<and> find_col_by_candidates U (Some (concat_df T S)) (cands E (ascii ''is_yeri_kodu'')) = Some p
               \<and> find_col_by_candidates U (Some (concat_df T S)) (cands E (ascii ''masraf_yeri_kodu'')) = Some m)"
  shows "\<exists>E1 n. import_staged_into_system U E True = Inr (E1, n, length (rows S))
           \<and> import_staged_into_system U E1 True = Inr (E1, length (rows S), length (rows S))"
  using assms(8)
proof
  assume "none_or_empty (src_df E)"
  from import_twice_fresh[OF assms(1-7) this] show ?thesis by blast
next
  assume "\<exists>T. src_df E = Some T \<and> \<not> empty_df T \<and> wf_table T
               \<and> find_col_by_candidates U (Some T) (cands E (ascii ''is_yeri_kodu'')) = Some p
               \<and> find_col_by_candidates U (Some T) (cands E (ascii ''masraf_yeri_kodu'')) = Some m
               \<and> find_col_by_candidates U (Some (concat_df T S)) (cands E (ascii ''is_yeri_kodu'')) = Some p
               \<and> find_col_by_candidates U (Some (concat_df T S)) (cands E (ascii ''masraf_yeri_kodu'')) = Some m"
  then obtain T where T: "src_df E = Some T" "\<not> empty_df T" "wf_table T"
    and f: "find_col_by_candidates U (Some T) (cands E (ascii ''is_yeri_kodu'')) = Some p"
      "find_col_by_candidates U (Some T) (cands E (ascii ''masraf_yeri_kodu'')) = Some m"
      "find_col_by_candidates U (Some (concat_df T S)) (cands E (ascii ''is_yeri_kodu'')) = Some p"
      "find_col_by_candidates U (Some (concat_df T S)) (cands E (ascii ''masraf_yeri_kodu'')) = Some m"
    by blast
  from import_twice_merge[OF assms(1-3) T assms(4-7) f] show ?thesis by blast
qed

theorem import_twice_same_key_columns_witness:
  "import_staged_into_system unicode_excerpt (engine0 (Some system_tab) (Some staged_tab)) True
      = Inr (engine0
              (Some \<lparr>columns = [ascii ''Plant'', ascii ''CC'', ascii ''AMOR''],
                     rows = [[Str (ascii ''P2''), Str (ascii ''C2''), Str (ascii ''50'')],
                             [Str (ascii '' p1 ''), Str (ascii ''c1''), NaN],
                             [Str (ascii ''P3''), Str (ascii ''C3''), NaN]]\<rparr>)
              (Some staged_tab), 1, 2)
   \<and> import_staged_into_system unicode_excerpt
        (engine0
              (Some \<lparr>columns = [ascii ''Plant'', ascii ''CC'', ascii ''AMOR''],
                     rows = [[Str (ascii ''P2''), Str (ascii ''C2''), Str (ascii ''50'')],
                             [Str (ascii '' p1 ''), Str (ascii ''c1''), NaN],
                             [Str (ascii ''P3''), Str (ascii ''C3''), NaN]]\<rparr>)
              (Some staged_tab)) True
      = Inr (engine0
              (Some \<lparr>columns = [ascii ''Plant'', ascii ''CC'', ascii ''AMOR''],
                     rows = [[Str (ascii ''P2''), Str (ascii ''C2''), Str (ascii ''50'')],
                             [Str (ascii '' p1 ''), Str (ascii ''c1''), NaN],
                             [Str (ascii ''P3''), Str (ascii ''C3''), NaN]]\<rparr>)
              (Some staged_tab), 2, 2)"
proof -
  let ?E = "engine0 (Some system_tab) (Some staged_tab)"
  have ne: "ascii ''Plant'' \<noteq> []" "ascii ''CC'' \<noteq> []" by (simp_all add: ascii_def)
  have s: "schema_of ?E = DEFAULT_SCHEMA" by (simp add: engine0_simps)
  have h: "none_or_empty (src_df ?E)
         \<or> (\<exists>T. src_df ?E = Some T \<and> \<not> empty_df T \<and> wf_table T
               \<and> find_col_by_candidates unicode_excerpt (Some T) (cands ?E (ascii ''is_yeri_kodu'')) = Some (ascii ''Plant'')
               \<and> find_col_by_candidates unicode_excerpt (Some T) (cands ?E (ascii ''masraf_yeri_kodu'')) = Some (ascii ''CC'')
               \<and> find_col_by_candidates unicode_excerpt (Some (concat_df T staged_tab)) (cands ?E (ascii ''is_yeri_kodu'')) = Some (ascii ''Plant'')
               \<and> find_col_by_candidates unicode_excerpt (Some (concat_df T staged_tab)) (cands ?E (ascii ''masraf_yeri_kodu'')) = Some (ascii ''CC''))"
    by (rule disjI2, rule exI[of _ system_tab])
       (simp add: engine0_simps example_tabs_nonempty example_tabs_wf find_system_tab[OF s] find_system_staged[OF s])
  have st: "staged_df ?E = Some staged_tab" by (simp add: engine0_simps)
  from import_twice_same_key_columns [OF st example_tabs_nonempty(2) example_tabs_wf(2)
      find_staged_tab(1)[OF s] ne(1) find_staged_tab(2)[OF s] ne(2) h]
  obtain E1 n where 1: "import_staged_into_system unicode_excerpt ?E True = Inr (E1, n, length (rows staged_tab))"
    and 2: "import_staged_into_system unicode_excerpt E1 True = Inr (E1, length (rows staged_tab), length (rows staged_tab))"
    by blast
  from 1 have "E1 = engine0
              (Some \<lparr>columns = [ascii ''Plant'', ascii ''CC'', ascii ''AMOR''],
                     rows = [[Str (ascii ''P2''), Str (ascii ''C2''), Str (ascii ''50'')],
                             [Str (ascii '' p1 ''), Str (ascii ''c1''), NaN],
                             [Str (ascii ''P3''), Str (ascii ''C3''), NaN]]\<rparr>)
              (Some staged_tab)"
    by (simp add: import_system_staged)
  moreover have "length (rows staged_tab) = 2" by (simp add: staged_tab_def)
  ultimately show ?thesis using 2 import_system_staged by simp
qed

lemma find_merged_site:
  assumes "schema_of E = DEFAULT_SCHEMA"
    and "columns t = [ascii ''Plant'', ascii ''CC'', ascii ''AMOR'', ascii ''site'', ascii ''cost center'']"
  shows "find_col_by_candidates U (Some t) (cands E (ascii ''is_yeri_kodu'')) = Some (ascii ''Plant'')"
    and "find_col_by_candidates U (Some t) (cands E (ascii ''masraf_yeri_kodu'')) = Some (ascii ''cost center'')"
  by (simp_all add: find_col_by_candidates_def cands_is_yeri_kodu[OF assms(1)]
      cands_masraf_yeri_kodu[OF assms(1)] assms(2) norm_headers_map_def norm_column_names ascii_eq_iff)

text \<open>
  The system table names its key columns \<open>Plant\<close> and \<open>CC\<close>, the staged table
  \<open>site\<close> and \<open>cost center\<close>. The first import replaces the system row with the staged
  key; on the merged table the cost-centre column resolves to \<open>cost center\<close>, the rows of
  the first import no longer carry the staged key pair, and the second import appends the
  staged row once more.
\<close>

theorem import_twice_counterexample:
  "import_staged_into_system unicode_excerpt (engine0 (Some system_tab) (Some site_tab)) True
      = Inr (engine0
              (Some \<lparr>columns = [ascii ''Plant'', ascii ''CC'', ascii ''AMOR'', ascii ''site'', ascii ''cost center''],
                     rows = [[Str (ascii ''P1''), Str (ascii ''C1''), Str (ascii ''100''), NaN, NaN],
                             [NaN, NaN, NaN, Str (ascii ''P2''), Str (ascii ''C2'')]]\<rparr>)
              (Some site_tab), 1, 1)
   \<and> import_staged_into_system unicode_excerpt
        (engine0
              (Some \<lparr>columns = [ascii ''Plant'', ascii ''CC'', ascii ''AMOR'', ascii ''site'', ascii ''cost center''],
                     rows = [[Str (ascii ''P1''), Str (ascii ''C1''), Str (ascii ''100''), NaN, NaN],
                             [NaN, NaN, NaN, Str (ascii ''P2''), Str (ascii ''C2'')]]\<rparr>)
              (Some site_tab)) True
      = Inr (engine0
              (Some \<lparr>columns = [ascii ''Plant'', ascii ''CC'', ascii ''AMOR'', ascii ''site'', ascii ''cost center''],
                     rows = [[Str (ascii ''P1''), Str (ascii ''C1''), Str (ascii ''100''), NaN, NaN],
                             [NaN, NaN, NaN, Str (ascii ''P2''), Str (ascii ''C2'')],
                             [NaN, NaN, NaN, Str (ascii ''P2''), Str (ascii ''C2'')]]\<rparr>)
              (Some site_tab), 0, 1)"
proof
  let ?E = "engine0 (Some system_tab) (Some site_tab)"
  have ne: "ascii ''Plant'' \<noteq> []" "ascii ''CC'' \<noteq> []" "ascii ''site'' \<noteq> []" "ascii ''cost center'' \<noteq> []"
    by (simp_all add: ascii_def)
  have "import_staged_into_system unicode_excerpt ?E True =
     Inr (?E\<lparr>src_df := Some (concat_df
            (system_tab\<lparr>rows := filter (\<lambda>r. row_key unicode_excerpt system_tab (ascii ''Plant'') (ascii ''CC'') r
                           \<notin> row_key unicode_excerpt site_tab (ascii ''site'') (ascii ''cost center'') ` set (rows site_tab))
                         (rows system_tab)\<rparr>) site_tab)\<rparr>,
          length (filter (\<lambda>r. row_key unicode_excerpt system_tab (ascii ''Plant'') (ascii ''CC'') r
                           \<in> row_key unicode_excerpt site_tab (ascii ''site'') (ascii ''cost center'') ` set (rows site_tab))
                         (rows system_tab)),
          length (rows site_tab))"
    by (rule import_with_key_columns)
       (simp_all add: engine0_simps example_tabs_nonempty find_system_tab find_site_tab ne)
  moreover have "map (row_key unicode_excerpt site_tab (ascii ''site'') (ascii ''cost center'')) (rows site_tab)
      = [(ascii ''p2'', ascii ''c2'')]"
    by (simp add: site_tab_def row_key_def cell_at_def key_eval)
  moreover have "map (row_key unicode_excerpt system_tab (ascii ''Plant'') (ascii ''CC'')) (rows system_tab)
      = [(ascii ''p1'', ascii ''c1''), (ascii ''p2'', ascii ''c2'')]"
    by (simp add: system_tab_def row_key_def cell_at_def key_eval)
  ultimately show "import_staged_into_system unicode_excerpt ?E True
      = Inr (engine0
              (Some \<lparr>columns = [ascii ''Plant'', ascii ''CC'', ascii ''AMOR'', ascii ''site'', ascii ''cost center''],
                     rows = [[Str (ascii ''P1''), Str (ascii ''C1''), Str (ascii ''100''), NaN, NaN],
                             [NaN, NaN, NaN, Str (ascii ''P2''), Str (ascii ''C2'')]]\<rparr>)
              (Some site_tab), 1, 1)"
    by (simp add: engine0_simps concat_df_kept merged_columns_def)
       (simp add: system_tab_def site_tab_def reindex_def ascii_def)
next
  let ?T1 = "\<lparr>columns = [ascii ''Plant'', ascii ''CC'', ascii ''AMOR'', ascii ''site'', ascii ''cost center''],
                     rows = [[Str (ascii ''P1''), Str (ascii ''C1''), Str (ascii ''100''), NaN, NaN],
                             [NaN, NaN, NaN, Str (ascii ''P2''), Str (ascii ''C2'')]]\<rparr> :: cell table"
  let ?T2 = "\<lparr>columns = [ascii ''Plant'', ascii ''CC'', ascii ''AMOR'', ascii ''site'', ascii ''cost center''],
                     rows = [[Str (ascii ''P1''), Str (ascii ''C1''), Str (ascii ''100''), NaN, NaN],
                             [NaN, NaN, NaN, Str (ascii ''P2''), Str (ascii ''C2'')],
                             [NaN, NaN, NaN, Str (ascii ''P2''), Str (ascii ''C2'')]]\<rparr> :: cell table"
  let ?E = "engine0 (Some ?T1) (Some site_tab)"
  let ?K = "row_key unicode_excerpt site_tab (ascii ''site'') (ascii ''cost center'') ` set (rows site_tab)"
  let ?k = "row_key unicode_excerpt ?T1 (ascii ''Plant'') (ascii ''cost center'')"
  have ne: "ascii ''Plant'' \<noteq> []" "ascii ''CC'' \<noteq> []" "ascii ''site'' \<noteq> []" "ascii ''cost center'' \<noteq> []"
    by (simp_all add: ascii_def)
  have s: "schema_of ?E = DEFAULT_SCHEMA" by (simp add: engine0_simps)
  have c: "columns ?T1 = [ascii ''Plant'', ascii ''CC'', ascii ''AMOR'', ascii ''site'', ascii ''cost center'']"
    by simp
  have ne1: "\<not> empty_df ?T1" by (simp add: empty_df_def)
  have imp: "import_staged_into_system unicode_excerpt ?E True =
     Inr (?E\<lparr>src_df := Some (concat_df (?T1\<lparr>rows := filter (\<lambda>r. ?k r \<notin> ?K) (rows ?T1)\<rparr>) site_tab)\<rparr>,
          length (filter (\<lambda>r. ?k r \<in> ?K) (rows ?T1)),
          length (rows site_tab))"
    by (rule import_with_key_columns[where T = ?T1 and S = site_tab])
       (simp_all add: engine0_simps example_tabs_nonempty find_merged_site[OF s c] find_site_tab[OF s] ne ne1
          del: c)
  have K: "?K = {(ascii ''p2'', ascii ''c2'')}"
    by (simp add: site_tab_def row_key_def cell_at_def key_eval)
  have k: "map ?k (rows ?T1) = [(ascii ''p1'', ascii ''nan''), (ascii ''nan'', ascii ''c2'')]"
    by (simp add: row_key_def cell_at_def key_eval)
  have kept: "filter (\<lambda>r. ?k r \<notin> ?K) (rows ?T1) = rows ?T1"
    unfolding K using k by (simp add: ascii_eq_iff)
  have removed: "filter (\<lambda>r. ?k r \<in> ?K) (rows ?T1) = []"
    unfolding K using k by (simp add: ascii_eq_iff)
  have same: "?T1\<lparr>rows := rows ?T1\<rparr> = ?T1" by simp
  have cc: "concat_df ?T1 site_tab = ?T2"
    by (simp add: concat_df_rows merged_columns_def site_tab_def reindex_def ascii_eq_iff)
  have "import_staged_into_system unicode_excerpt ?E True =
     Inr (?E\<lparr>src_df := Some ?T2\<rparr>, length ([] :: cell list list), length (rows site_tab))"
    using imp by (simp only: kept removed same cc)
  then show "import_staged_into_system unicode_excerpt ?E True = Inr (engine0 (Some ?T2) (Some site_tab), 0, 1)"
    by (simp add: engine0_simps site_tab_def)
qed

section \<open>Majority-vote autofill\<close>






lemma count_list_le_length: "count_list xs x \<le> length xs"
  by (induction xs) auto















section \<open>The row filters\<close>

lemma map2_and_maps: "map2 (\<and>) (map P xs) (map Q xs) = map (\<lambda>x. P x \<and> Q x) xs"
  by (induction xs) simp_all

lemma code_mask_rows:
  "code_mask U (map (cell_at t col) (rows t)) code
     = map (meets_code U t (Some code) (Some col)) (rows t)" if "code \<noteq> []" "col \<noteq> []"
  using that
  by (auto simp: code_mask_def meets_code_def equals_code_def trimmed_value_def list_ex_iff Let_def o_def)

lemma and_code_mask_rows:
  assumes "truthy col \<longrightarrow> the col \<in> set (columns t)"
  shows "and_code_mask U t (map P (rows t)) code col
     = Inr (map (\<lambda>r. P r \<and> meets_code U t code col r) (rows t))"
proof (cases "truthy code \<and> truthy col")
  case False
  then show ?thesis by (auto simp: and_code_mask_def meets_code_def)
next
  case True
  then obtain c k where ck: "code = Some c" "col = Some k" "c \<noteq> []" "k \<noteq> []"
    by (cases code; cases col) auto
  with assms have "getitem t k = Inr (map (cell_at t k) (rows t))"
    by (simp add: getitem_cell_at)
  with ck show ?thesis
    by (simp add: and_code_mask_def code_mask_rows map2_and_maps)
qed


lemma loc_mask_rows: "loc_mask t (map P (rows t)) = t\<lparr>rows := filter P (rows t)\<rparr>"
  by (rule loc_mask_filter)

lemma filter_by_codes_rows:
  assumes "\<not> empty_df t"
    and "truthy (plant_col found) \<longrightarrow> the (plant_col found) \<in> set (columns t)"
    and "truthy (cctr_col found) \<longrightarrow> the (cctr_col found) \<in> set (columns t)"
  shows "filter_by_codes U (Some t) plant_code cctr_code found =
     Inr (t\<lparr>rows := filter (\<lambda>r. meets_code U t plant_code (plant_col found) r
                              \<and> meets_code U t cctr_code (cctr_col found) r) (rows t)\<rparr>)"
proof -
  have m0: "replicate (length (rows t)) True = map (\<lambda>r. True) (rows t)"
    by (simp add: map_replicate_const)
  show ?thesis
    using assms(1)
    by (simp add: filter_by_codes_def m0 and_code_mask_rows[OF assms(2)] and_code_mask_rows[OF assms(3)]
        loc_mask_rows)
qed

lemma find_col_truthy_in:
  "truthy (find_col_by_candidates U (Some t) cs) \<longrightarrow> the (find_col_by_candidates U (Some t) cs) \<in> set (columns t)"
  by (cases "find_col_by_candidates U (Some t) cs") (auto dest: find_col_in_columns)

lemma meets_code_guarded:
  "meets_code U t code (if truthy code then col else None) r = meets_code U t code col r"
  by (simp add: meets_code_def)

lemma filter_df_by_codes_rows:
  assumes "\<not> empty_df t"
  shows "filter_df_by_codes U E (Some t) isyeri masraf =
     (let rs = filter (\<lambda>r. meets_code U t isyeri (find_col_by_candidates U (Some t) (cands E (ascii ''is_yeri_kodu''))) r
                         \<and> meets_code U t masraf (find_col_by_candidates U (Some t) (cands E (ascii ''masraf_yeri_kodu''))) r)
                 (rows t)
      in if rs = [] then Inr DataFrame else Inr (provenance_first (t\<lparr>rows := rs\<rparr>)))"
proof -
  let ?ci = "if truthy isyeri then find_col_by_candidates U (Some t) (cands E (ascii ''is_yeri_kodu'')) else None"
  let ?cm = "if truthy masraf then find_col_by_candidates U (Some t) (cands E (ascii ''masraf_yeri_kodu'')) else None"
  have m0: "replicate (length (rows t)) True = map (\<lambda>r. True) (rows t)"
    by (simp add: map_replicate_const)
  have i: "truthy ?ci \<longrightarrow> the ?ci \<in> set (columns t)" by (simp add: find_col_truthy_in[rule_format])
  have m: "truthy ?cm \<longrightarrow> the ?cm \<in> set (columns t)" by (simp add: find_col_truthy_in[rule_format])
  have e: "empty_df (t\<lparr>rows := rs\<rparr>) \<longleftrightarrow> rs = []" for rs
    using assms by (simp add: empty_df_def)
  show ?thesis
    using assms
    by (simp add: filter_df_by_codes_def Let_def m0 and_code_mask_rows[OF i] and_code_mask_rows[OF m]
        loc_mask_rows e meets_code_guarded)
qed

text \<open>
  Claim C8. On a non-empty table both filters keep exactly the rows that meet the plant
  constraint and the cost-centre constraint (\<open>meets_code\<close>): the values of the target
  column are stringified and trimmed; when at least one row equals the code up to case,
  the constraint is that equality, otherwise it is containment of the code up to case;
  a code that is empty or absent, and a column that is not resolved, leave the constraint
  out. \<open>filter_by_codes\<close> takes the columns from \<open>found\<close> (columns of the table, as
  \<open>resolve_columns\<close> returns them); \<open>filter_df_by_codes\<close> resolves them itself, returns
  the empty frame when no row is kept and moves the provenance column to the front.
\<close>

theorem filter_by_codes_equality_then_containment:
  assumes "\<not> empty_df t"
    and "truthy (plant_col found) \<longrightarrow> the (plant_col found) \<in> set (columns t)"
    and "truthy (cctr_col found) \<longrightarrow> the (cctr_col found) \<in> set (columns t)"
  shows "filter_by_codes U (Some t) plant_code cctr_code found =
           Inr (t\<lparr>rows := filter (\<lambda>r. meets_code U t plant_code (plant_col found) r
                                    \<and> meets_code U t cctr_code (cctr_col found) r) (rows t)\<rparr>)
       \<and> filter_df_by_codes U E (Some t) plant_code cctr_code =
           (let rs = filter
                  (\<lambda>r. meets_code U t plant_code
                          (find_col_by_candidates U (Some t) (cands E (ascii ''is_yeri_kodu''))) r
                      \<and> meets_code U t cctr_code
                          (find_col_by_candidates U (Some t) (cands E (ascii ''masraf_yeri_kodu''))) r)
                  (rows t)
            in if rs = [] then Inr DataFrame else Inr (provenance_first (t\<lparr>rows := rs\<rparr>)))"
  using filter_by_codes_rows[OF assms] filter_df_by_codes_rows[OF assms(1)] by (rule conjI)

text \<open>The definitions that evaluate a constraint on a literal.\<close>

lemmas filter_eval = meets_code_def equals_code_def trimmed_value_def contains_ci_def cell_at_def
  casefold_def upper_def upper1_def strip_def isspace_def lower1_def

lemma find_ext_tab:
  assumes "schema_of E = DEFAULT_SCHEMA"
  shows "find_col_by_candidates U (Some ext_tab) (cands E (ascii ''is_yeri_kodu'')) = Some (ascii ''Plant'')"
    and "find_col_by_candidates U (Some ext_tab) (cands E (ascii ''masraf_yeri_kodu'')) = Some (ascii ''CC'')"
  by (simp_all add: find_col_by_candidates_def cands_is_yeri_kodu[OF assms] cands_masraf_yeri_kodu[OF assms]
      ext_tab_def norm_headers_map_def norm_column_names ascii_eq_iff)

theorem filter_by_codes_equality_then_containment_witness:
  "filter_by_codes unicode_excerpt (Some ext_tab) (Some (ascii ''p1'')) None
      \<lparr>plant_col = Some (ascii ''Plant''), cctr_col = Some (ascii ''CC''), comp_cols = []\<rparr>
    = Inr \<lparr>columns = [ascii ''Plant'', ascii ''CC''],
           rows = [[Str (ascii ''P1-EXT''), Str (ascii ''C1'')]]\<rparr>
   \<and> filter_by_codes unicode_excerpt (Some both_tab) (Some (ascii ''P1'')) (Some (ascii ''c1''))
      \<lparr>plant_col = Some (ascii ''Plant''), cctr_col = Some (ascii ''CC''), comp_cols = []\<rparr>
    = Inr \<lparr>columns = [ascii ''Plant'', ascii ''CC''],
           rows = [[Str (ascii '' p1 ''), Str (ascii ''C1'')]]\<rparr>
   \<and> filter_df_by_codes unicode_excerpt (engine0 None None) (Some ext_tab) (Some (ascii ''P1'')) (Some [])
    = Inr \<lparr>columns = [ascii ''Plant'', ascii ''CC''],
           rows = [[Str (ascii ''P1-EXT''), Str (ascii ''C1'')]]\<rparr>"
proof -
  let ?f = "\<lparr>plant_col = Some (ascii ''Plant''), cctr_col = Some (ascii ''CC''), comp_cols = []\<rparr>"
  have e: "\<not> empty_df ext_tab" "\<not> empty_df both_tab"
    by (simp_all add: empty_df_def ext_tab_def both_tab_def)
  have p: "truthy (plant_col ?f) \<longrightarrow> the (plant_col ?f) \<in> set (columns ext_tab)"
    "truthy (cctr_col ?f) \<longrightarrow> the (cctr_col ?f) \<in> set (columns ext_tab)"
    "truthy (plant_col ?f) \<longrightarrow> the (plant_col ?f) \<in> set (columns both_tab)"
    "truthy (cctr_col ?f) \<longrightarrow> the (cctr_col ?f) \<in> set (columns both_tab)"
    by (simp_all add: ext_tab_def both_tab_def)
  have s: "schema_of (engine0 None None) = DEFAULT_SCHEMA" by (simp add: engine0_simps)
  note A = filter_by_codes_equality_then_containment
    [OF e(1) p(1) p(2), of unicode_excerpt "Some (ascii ''p1'')" None "engine0 None None", THEN conjunct1]
  note B = filter_by_codes_equality_then_containment
    [OF e(2) p(3) p(4), of unicode_excerpt "Some (ascii ''P1'')" "Some (ascii ''c1'')" "engine0 None None",
      THEN conjunct1]
  note C = filter_by_codes_equality_then_containment
    [OF e(1) p(1) p(2), of unicode_excerpt "Some (ascii ''P1'')" "Some []" "engine0 None None", THEN conjunct2]
  have 1: "filter_by_codes unicode_excerpt (Some ext_tab) (Some (ascii ''p1'')) None ?f
    = Inr \<lparr>columns = [ascii ''Plant'', ascii ''CC''], rows = [[Str (ascii ''P1-EXT''), Str (ascii ''C1'')]]\<rparr>"
    unfolding A by (simp add: ext_tab_def filter_eval ascii_def)
  have 2: "filter_by_codes unicode_excerpt (Some both_tab) (Some (ascii ''P1'')) (Some (ascii ''c1'')) ?f
    = Inr \<lparr>columns = [ascii ''Plant'', ascii ''CC''], rows = [[Str (ascii '' p1 ''), Str (ascii ''C1'')]]\<rparr>"
    unfolding B by (simp add: both_tab_def filter_eval ascii_def)
  have 3: "filter_df_by_codes unicode_excerpt (engine0 None None) (Some ext_tab) (Some (ascii ''P1'')) (Some [])
    = Inr \<lparr>columns = [ascii ''Plant'', ascii ''CC''], rows = [[Str (ascii ''P1-EXT''), Str (ascii ''C1'')]]\<rparr>"
    unfolding C find_ext_tab[OF s]
    by (simp add: ext_tab_def filter_eval provenance_first_def ascii_def)
  from 1 2 3 show ?thesis by (intro conjI)
qed

section \<open>The formula evaluator\<close>


lemma eval_formulas_append:
  "eval_formulas_on_rows U ev df (fs1 @ fs2)
     = eval_formulas_on_rows U ev (eval_formulas_on_rows U ev df fs1) fs2"
  by (simp add: eval_formulas_on_rows_def)


lemma columns_set_column: "set (columns (set_column t name f)) = insert name (set (columns t))"
  using index_of_Some_iff[of "columns t" name]
  by (auto simp: set_column_def split: option.splits)

lemma columns_formula_step:
  "set (columns (formula_step U ev out (name, x))) \<subseteq> insert name (set (columns out))"
  by (auto simp: formula_step_def columns_set_column split: formula_expr.splits eval_result.splits)

lemma columns_eval_formulas:
  "set (columns (eval_formulas_on_rows U ev df fs)) \<subseteq> set (columns df) \<union> fst ` set fs"
proof (induction fs rule: rev_induct)
  case Nil
  then show ?case by (simp add: eval_formulas_on_rows_def)
next
  case (snoc nx fs)
  obtain name x where nx: "nx = (name, x)" by (cases nx)
  have "eval_formulas_on_rows U ev df (fs @ [nx])
      = formula_step U ev (eval_formulas_on_rows U ev df fs) (name, x)"
    by (simp add: eval_formulas_on_rows_def nx)
  with snoc columns_formula_step[of U ev "eval_formulas_on_rows U ev df fs" name x]
  show ?case by (auto simp: nx)
qed




lemma eval_comp_tab_total:
  "eval_formulas_on_rows U sum_eval comp_tab [(ascii ''TOTAL'', ExprStr (ascii ''AMOR + DIS''))]
     = \<lparr>columns = [ascii ''AMOR'', ascii ''DIS'', ascii ''TOTAL''], rows = [[1, 2, 3], [3, 4, 7]]\<rparr>"
proof -
  have a: "list_all (allowed_char U) (ascii ''AMOR + DIS'')"
    by (simp add: allowed_char_def isalnum_def ascii_alnum_def az09_def isspace_def ascii_def)
  have e: "local_env comp_tab = [(ascii ''AMOR'', Series [1, 3]), (ascii ''DIS'', Series [2, 4]),
      (ascii ''EDIS'', Zero), (ascii ''ENER'', Zero), (ascii ''GUG'', Zero)]"
    by (simp add: local_env_def comp_tab_def COMPONENTS_def ascii_eq_iff)
  have v: "sum_eval (ascii ''AMOR + DIS'') (local_env comp_tab) = Value (\<lambda>i. [1, 3] ! i + [2, 4] ! i)"
    by (simp add: e sum_eval_def ascii_eq_iff)
  have "index_of (columns comp_tab) (ascii ''TOTAL'') = None"
    by (simp add: comp_tab_def ascii_eq_iff)
  then have "set_column comp_tab (ascii ''TOTAL'') (\<lambda>i. [1, 3] ! i + [2, 4] ! i)
     = \<lparr>columns = [ascii ''AMOR'', ascii ''DIS'', ascii ''TOTAL''], rows = [[1, 2, 3], [3, 4, 7]]\<rparr>"
    by (simp add: set_column_def) (simp add: comp_tab_def enumerate_simps)
  with a v show ?thesis by (simp add: eval_formulas_on_rows_def formula_step_def)
qed


lemma map_enumerate_take:
  assumes "\<And>i r. r \<in> set rs \<Longrightarrow> take n (g i r) = take n r"
  shows "map (take n) (map (\<lambda>(i, r). g i r) (enumerate k rs)) = map (take n) rs"
  using assms by (induction rs arbitrary: k) simp_all

lemma list_all_enumerate:
  assumes "\<And>i r. r \<in> set rs \<Longrightarrow> P r \<Longrightarrow> P (g i r)" and "list_all P rs"
  shows "list_all P (map (\<lambda>(i, r). g i r) (enumerate k rs))"
  using assms by (induction rs arbitrary: k) simp_all

lemma index_of_take:
  "index_of xs c = Some j \<Longrightarrow> c \<notin> set (take n xs) \<Longrightarrow> n \<le> j"
proof (rule ccontr)
  assume a: "index_of xs c = Some j" "c \<notin> set (take n xs)" "\<not> n \<le> j"
  from a(1) have "j < length xs" "xs ! j = c" using index_of_bound by fastforce+
  with a(3) have "c \<in> set (take n xs)" by (auto simp: in_set_conv_nth intro!: exI[of _ j])
  with a(2) show False by blast
qed

lemma frame_inv_set_column:
  assumes "frame_inv df out" and "name \<notin> set (columns df)"
  shows "frame_inv df (set_column out name f)"
proof (cases "index_of (columns out) name")
  case None
  let ?n = "length (columns df)"
  from assms(1) have c: "take ?n (columns out) = columns df"
    and r: "map (take ?n) (rows out) = rows df"
    and l: "list_all (\<lambda>r. ?n \<le> length r) (rows out)" by (simp_all add: frame_inv_def)
  have "length (take ?n (columns out)) = ?n" by (simp only: c)
  then have "?n \<le> length (columns out)" by simp
  with c have c': "take ?n (columns out @ [name]) = columns df" by simp
  have r': "map (take ?n) (map (\<lambda>(i, r). r @ [f i]) (enumerate 0 (rows out))) = map (take ?n) (rows out)"
    using l by (intro map_enumerate_take) (simp add: list_all_iff)
  have l': "list_all (\<lambda>r. ?n \<le> length r) (map (\<lambda>(i, r). r @ [f i]) (enumerate 0 (rows out)))"
    using l by (intro list_all_enumerate) simp_all
  from None c' r' r l' show ?thesis by (simp add: set_column_def frame_inv_def)
next
  case (Some j)
  let ?n = "length (columns df)"
  from assms(1) have c: "take ?n (columns out) = columns df"
    and r: "map (take ?n) (rows out) = rows df"
    and l: "list_all (\<lambda>r. ?n \<le> length r) (rows out)" by (simp_all add: frame_inv_def)
  from assms(2) c have "name \<notin> set (take ?n (columns out))" by simp
  with Some have j: "?n \<le> j" by (rule index_of_take)
  have r': "map (take ?n) (map (\<lambda>(i, r). r[j := f i]) (enumerate 0 (rows out))) = map (take ?n) (rows out)"
    using j by (intro map_enumerate_take) simp
  have l': "list_all (\<lambda>r. ?n \<le> length r) (map (\<lambda>(i, r). r[j := f i]) (enumerate 0 (rows out)))"
    using l by (intro list_all_enumerate) simp_all
  from Some c r' r l' show ?thesis by (simp add: set_column_def frame_inv_def)
qed

lemma frame_inv_formula_step:
  assumes "frame_inv df out" and "name \<notin> set (columns df)"
  shows "frame_inv df (formula_step U ev out (name, x))"
  using assms
  by (auto simp: formula_step_def frame_inv_set_column split: formula_expr.splits eval_result.splits)

lemma frame_inv_eval_formulas:
  assumes "frame_inv df out" and "fst ` set fs \<inter> set (columns df) = {}"
  shows "frame_inv df (eval_formulas_on_rows U ev out fs)"
  using assms
proof (induction fs arbitrary: out)
  case Nil
  then show ?case by (simp add: eval_formulas_on_rows_def)
next
  case (Cons nx fs)
  obtain name x where nx: "nx = (name, x)" by (cases nx)
  with Cons.prems have "name \<notin> set (columns df)" and d: "fst ` set fs \<inter> set (columns df) = {}"
    by auto
  with Cons.prems(1) have "frame_inv df (formula_step U ev out (name, x))"
    by (intro frame_inv_formula_step)
  from Cons.IH[OF this d] show ?case by (simp add: eval_formulas_on_rows_def nx)
qed

lemma frame_inv_init: "wf_table df \<Longrightarrow> frame_inv df df"
proof -
  assume w: "wf_table df"
  then have "map (take (length (columns df))) (rows df) = rows df"
    by (intro map_idI) (simp add: wf_table_def list_all_iff)
  with w show ?thesis by (simp add: frame_inv_def wf_table_def list_all_iff)
qed

lemma index_of_prefix:
  "c \<in> set (take n xs) \<Longrightarrow> index_of (take n xs) c = index_of xs c"
proof (induction xs arbitrary: n)
  case Nil
  then show ?case by simp
next
  case (Cons x xs)
  then show ?case by (cases n) auto
qed

lemma frame_inv_getitem:
  assumes "frame_inv df out" and "c \<in> set (columns df)"
  shows "getitem out c = getitem df c"
proof -
  let ?n = "length (columns df)"
  from assms(1) have t: "take ?n (columns out) = columns df"
    and r: "map (take ?n) (rows out) = rows df" by (simp_all add: frame_inv_def)
  from assms(2) obtain i where i: "index_of (columns df) c = Some i"
    using index_of_Some_iff[of "columns df" c] by blast
  then have il: "i < ?n" using index_of_bound by fastforce
  from assms(2) t have "index_of (columns out) c = index_of (columns df) c"
    using index_of_prefix[of c ?n "columns out"] by simp
  moreover have "map (\<lambda>r. r ! i) (rows df) = map (\<lambda>r. r ! i) (rows out)"
    using il by (simp add: r[symmetric])
  ultimately show ?thesis using i by (simp add: getitem_def)
qed

text \<open>
  Claim C10. When no formula is named like a column of the (well-formed) components table,
  the columns of the input are the leading columns of the output, in the same order, the rows
  of the output start with the rows of the input, every column of the input has the same
  cells in the output, and every column of the output is a column of the input or is named
  after a formula. The model passes tables by value, as the \<^verbatim>\<open>copy()\<close> at the head of
  the function makes the Python behave: the argument is not changed.
\<close>

theorem eval_formulas_frame:
  assumes "wf_table df" and "fst ` set formulas \<inter> set (columns df) = {}"
  shows "take (length (columns df)) (columns (eval_formulas_on_rows U ev df formulas)) = columns df
       \<and> map (take (length (columns df))) (rows (eval_formulas_on_rows U ev df formulas)) = rows df
       \<and> (\<forall>c\<in>set (columns df). getitem (eval_formulas_on_rows U ev df formulas) c = getitem df c)
       \<and> set (columns (eval_formulas_on_rows U ev df formulas)) \<subseteq> set (columns df) \<union> fst ` set formulas"
proof -
  have inv: "frame_inv df (eval_formulas_on_rows U ev df formulas)"
    using assms by (intro frame_inv_eval_formulas frame_inv_init)
  then show ?thesis
    using frame_inv_getitem[OF inv] columns_eval_formulas[of U ev df formulas]
    by (simp add: frame_inv_def)
qed

theorem eval_formulas_frame_witness:
  "take 2 (columns (eval_formulas_on_rows unicode_excerpt sum_eval comp_tab
      [(ascii ''TOTAL'', ExprStr (ascii ''AMOR + DIS''))])) = [ascii ''AMOR'', ascii ''DIS'']
   \<and> map (take 2) (rows (eval_formulas_on_rows unicode_excerpt sum_eval comp_tab
      [(ascii ''TOTAL'', ExprStr (ascii ''AMOR + DIS''))])) = [[1, 2], [3, 4]]
   \<and> getitem (eval_formulas_on_rows unicode_excerpt sum_eval comp_tab
      [(ascii ''TOTAL'', ExprStr (ascii ''AMOR + DIS''))]) (ascii ''DIS'') = Inr [2, 4]
   \<and> columns (eval_formulas_on_rows unicode_excerpt sum_eval comp_tab
      [(ascii ''TOTAL'', ExprStr (ascii ''AMOR + DIS''))]) = [ascii ''AMOR'', ascii ''DIS'', ascii ''TOTAL'']"
proof -
  let ?fs = "[(ascii ''TOTAL'', ExprStr (ascii ''AMOR + DIS''))]"
  have w: "wf_table comp_tab" by (simp add: wf_table_def comp_tab_def ascii_eq_iff)
  have d: "fst ` set ?fs \<inter> set (columns comp_tab) = {}" by (simp add: comp_tab_def ascii_eq_iff)
  note T = eval_formulas_frame [OF w d, of unicode_excerpt sum_eval]
  have c: "columns comp_tab = [ascii ''AMOR'', ascii ''DIS'']" "rows comp_tab = [[1, 2], [3, 4]]"
    "length (columns comp_tab) = 2"
    by (simp_all add: comp_tab_def)
  have g: "getitem comp_tab (ascii ''DIS'') = Inr [2, 4]"
    by (simp add: getitem_def comp_tab_def ascii_eq_iff)
  have m: "ascii ''DIS'' \<in> set (columns comp_tab)" by (simp add: c numeral_2_eq_2)
  from T[THEN conjunct1] have 1: "take 2 (columns (eval_formulas_on_rows unicode_excerpt sum_eval comp_tab ?fs))
      = [ascii ''AMOR'', ascii ''DIS'']" by (simp add: c numeral_2_eq_2)
  from T[THEN conjunct2, THEN conjunct1] have 2: "map (take 2) (rows (eval_formulas_on_rows unicode_excerpt sum_eval comp_tab ?fs))
      = [[1, 2], [3, 4]]" by (simp add: c numeral_2_eq_2)
  from T[THEN conjunct2, THEN conjunct2, THEN conjunct1, THEN bspec, OF m] g
  have 3: "getitem (eval_formulas_on_rows unicode_excerpt sum_eval comp_tab ?fs) (ascii ''DIS'') = Inr [2, 4]"
    by (simp only:)
  have 4: "columns (eval_formulas_on_rows unicode_excerpt sum_eval comp_tab ?fs)
      = [ascii ''AMOR'', ascii ''DIS'', ascii ''TOTAL'']"
    by (simp add: eval_comp_tab_total)
  from 1 2 3 4 show ?thesis by (intro conjI)
qed

section \<open>Numeric coercion\<close>

text \<open>The definitions that evaluate \<open>to_float\<close> on a literal.\<close>

lemmas float_eval = to_float_def float_of_string_def parse_decimal_def split_sign_def scale10_def
  digits_value_def is_digit_def ascii_space_def transform_decimal_and_space_def rfind_def
  replace_char_def lower_def lower1_def ascii_lower_def strip_def isspace_def ascii_def Let_def

text \<open>
  What holds of the rule: blank input and the null markers give \<open>0.0\<close>, a lone comma is the
  decimal separator, input that does not parse gives \<open>0.0\<close>, and nothing raises (the model
  is a total function into floats).
\<close>

lemma to_float_null_markers:
  "to_float U (Str (ascii ''  '')) = Fin 0" "to_float U (Str (ascii '' NaN '')) = Fin 0"
  "to_float U NaN = Fin 0" "to_float U PyNone = Fin 0" "to_float U PdNA = Fin 0"
  by (simp_all add: float_eval)

lemma to_float_comma_only:
  "to_float U (Str (ascii ''12,5'')) = Fin (125 / 10)" "to_float U (Str (ascii ''abc'')) = Fin 0"
  by (simp_all add: float_eval)

text \<open>
  Claim C2, where the code departs from it. With a comma and a point of which the comma is
  the rightmost, the point is removed and the comma becomes the decimal separator:
  \<open>1.234,56\<close> is read as \<open>1234.56\<close>, as is \<open>1234.56\<close> itself. With the point rightmost, the
  branch that serves a lone comma is taken: the comma of \<open>1,234.56\<close> is turned into a
  point, \<open>1.234.56\<close> does not parse, and the result is \<open>0.0\<close>, not \<open>1234.56\<close>.
\<close>

theorem to_float_comma_before_point:
  "to_float U (Str (ascii ''1,234.56'')) = Fin 0
   \<and> to_float U (Str (ascii ''1.234,56'')) = Fin (123456 / 100)
   \<and> to_float U (Str (ascii ''1234.56'')) = Fin (123456 / 100)"
  by (simp add: float_eval)

end
